theory Spec2Isabelle
  imports Complex_Main "HOL-Library.AList"
begin

section \<open>JavaScript values\<close>

text \<open>
  Identifiers, keys, MIME types, status values and messages are \<open>string\<close>s. Free text
  (extracted document text, the text of an AI response) is a list of UTF-16 code units,
  because the whitespace class of a JavaScript regular expression reaches beyond one byte.
\<close>

type_synonym jsstring = "nat list"

definition lit :: "string \<Rightarrow> jsstring" where
  "lit s = map of_char s"

datatype json =
    JNull
  | JBool bool
  | JNum real
  | JStr jsstring
  | JArr "json list"
  | JObj "(string \<times> json) list"

type_synonym obj = "(string \<times> json) list"

text \<open>\<open>!v\<close> is \<open>\<not> truthy v\<close>: null, false, 0 and the empty string are falsy; every
  array and every object is truthy, the empty ones included.\<close>

fun truthy :: "json \<Rightarrow> bool" where
  "truthy JNull = False"
| "truthy (JBool b) = b"
| "truthy (JNum x) = (x \<noteq> 0)"
| "truthy (JStr s) = (s \<noteq> [])"
| "truthy (JArr xs) = True"
| "truthy (JObj kvs) = True"

text \<open>\<open>x || d\<close> on an optional string: the default when \<open>x\<close> is undefined, null or
  empty.\<close>

definition js_or :: "string option \<Rightarrow> string \<Rightarrow> string" where
  "js_or x d = (case x of None \<Rightarrow> d | Some s \<Rightarrow> if s = [] then d else s)"

text \<open>\<open>!x\<close> on an optional string.\<close>

definition falsy_str :: "string option \<Rightarrow> bool" where
  "falsy_str x = (case x of None \<Rightarrow> True | Some s \<Rightarrow> s = [])"

datatype js_error = Error string | TypeError string

fun message :: "js_error \<Rightarrow> string" where
  "message (Error m) = m"
| "message (TypeError m) = m"

section \<open>The case record (services/caseService.js)\<close>

text \<open>
  The record \<open>createCase\<close> builds. A field is optional exactly where the source tests for
  its absence (\<open>caseData.sideA?.documents\<close>, \<open>caseData.arguments || []\<close>); \<open>verdict\<close> is
  a JSON value, \<open>JNull\<close> until a verdict is set.
\<close>

record document =
  filename :: string
  path :: string
  mimetype :: string
  doc_size :: nat
  extractedText :: jsstring
  fileUrl :: "string option"

record side_data =
  side_description :: "string option"
  documents :: "document list option"
  uploadedAt :: "string option"

record argument_data =
  side :: string
  argument :: string
  aiResponse :: obj
  timestamp :: "string option"
  argumentNumber :: nat

record argument_entry = argument_data +
  arg_id :: string

record metadata =
  totalArguments :: nat
  sideAArguments :: nat
  sideBArguments :: nat
  lastActivity :: string

record case_data =
  caseId :: string
  title :: string
  description :: string
  country :: string
  caseType :: string
  status :: string
  createdAt :: string
  updatedAt :: string
  sideA :: "side_data option"
  sideB :: "side_data option"
  verdict :: json
  arguments :: "argument_entry list option"
  metadata :: metadata

record document_data =
  dd_description :: "string option"
  dd_documents :: "document list"

text \<open>
  The data directory, one JSON file per case id, is a map from case id to record: a read
  of a missing file is \<open>None\<close>, a write replaces the whole entry. File-system failures
  other than a missing file are outside the model. \<open>now\<close> is the clock reading of the
  call, \<open>newId\<close> the identifier \<open>generateCaseId\<close> draws, \<open>rid\<close> the random argument id.
\<close>

type_synonym store = "string \<rightharpoonup> case_data"

definition getCase :: "store \<Rightarrow> string \<Rightarrow> case_data option" where
  "getCase st cid = st cid"

definition saveCase :: "string \<Rightarrow> case_data \<Rightarrow> store \<Rightarrow> case_data \<times> store" where
  "saveCase now caseData st =
     (let c = caseData\<lparr>updatedAt := now\<rparr> in (c, st(caseId c \<mapsto> c)))"

definition createCase ::
  "string \<Rightarrow> string \<Rightarrow> string \<Rightarrow> string \<Rightarrow> string \<Rightarrow> string option \<Rightarrow> store
     \<Rightarrow> case_data \<times> store" where
  "createCase newId now ttl descr ctry ctype st =
     saveCase now
       \<lparr> caseId = newId,
         title = ttl,
         description = descr,
         country = ctry,
         caseType = js_or ctype ''civil'',
         status = ''created'',
         createdAt = now,
         updatedAt = now,
         sideA = Some \<lparr> side_description = None, documents = Some [], uploadedAt = None \<rparr>,
         sideB = Some \<lparr> side_description = None, documents = Some [], uploadedAt = None \<rparr>,
         verdict = JNull,
         arguments = Some [],
         metadata = \<lparr> totalArguments = 0, sideAArguments = 0, sideBArguments = 0,
                      lastActivity = now \<rparr> \<rparr>
       st"

text \<open>\<open>caseData.sideX.documents.length\<close>: a TypeError when the side or its documents
  are absent.\<close>

definition documents_length :: "side_data option \<Rightarrow> js_error + nat" where
  "documents_length s =
     (case s of
        None \<Rightarrow> Inl (TypeError ''Cannot read properties of undefined'')
      | Some sd \<Rightarrow>
          (case documents sd of
             None \<Rightarrow> Inl (TypeError ''Cannot read properties of undefined'')
           | Some ds \<Rightarrow> Inr (length ds)))"

text \<open>The status test of \<open>addDocumentsToSide\<close>; \<open>&&\<close> does not evaluate side B when
  side A has no document.\<close>

definition upload_status :: "case_data \<Rightarrow> js_error + string" where
  "upload_status c =
     (case documents_length (sideA c) of
        Inl e \<Rightarrow> Inl e
      | Inr la \<Rightarrow>
          if la > 0 then
            (case documents_length (sideB c) of
               Inl e \<Rightarrow> Inl e
             | Inr lb \<Rightarrow> Inr (if lb > 0 then ''ready_for_judgment'' else ''awaiting_documents''))
          else Inr ''awaiting_documents'')"

definition addDocumentsToSide ::
  "string \<Rightarrow> string \<Rightarrow> string \<Rightarrow> string \<Rightarrow> document_data \<Rightarrow> store
     \<Rightarrow> (js_error + case_data) \<times> store" where
  "addDocumentsToSide newId now cid sd documentData st =
     (let (caseData, st1) =
            (case getCase st cid of
               None \<Rightarrow>
                 (let (c, s1) = createCase newId now (''Case '' @ cid)
                                  ''Auto-created case from document upload''
                                  ''United States'' (Some ''civil'') st
                  in (c\<lparr>caseId := cid\<rparr>, s1))
             | Some c \<Rightarrow> (c, st));
          entry = \<lparr> side_description = dd_description documentData,
                    documents = Some (dd_documents documentData),
                    uploadedAt = Some now \<rparr>;
          c1 = (if sd = ''A'' then caseData\<lparr>sideA := Some entry\<rparr>
                else caseData\<lparr>sideB := Some entry\<rparr>)
      in case upload_status c1 of
           Inl e \<Rightarrow> (Inl e, st1)
         | Inr s \<Rightarrow>
             (let c2 = c1\<lparr>status := s\<rparr>;
                  c3 = c2\<lparr>metadata := (metadata c2)\<lparr>lastActivity := now\<rparr>\<rparr>;
                  (c4, st2) = saveCase now c3 st1
              in (Inr c4, st2)))"

definition setVerdict ::
  "string \<Rightarrow> string \<Rightarrow> json \<Rightarrow> store \<Rightarrow> (js_error + case_data) \<times> store" where
  "setVerdict now cid v st =
     (case getCase st cid of
        None \<Rightarrow> (Inl (Error ''Case not found''), st)
      | Some caseData \<Rightarrow>
          (let c1 = caseData\<lparr>verdict := v\<rparr>;
               c2 = c1\<lparr>status := ''verdict_rendered''\<rparr>;
               c3 = c2\<lparr>metadata := (metadata c2)\<lparr>lastActivity := now\<rparr>\<rparr>;
               (c4, st1) = saveCase now c3 st
           in (Inr c4, st1)))"

text \<open>\<open>caseData.arguments || []\<close>.\<close>

definition arguments_or_empty :: "case_data \<Rightarrow> argument_entry list" where
  "arguments_or_empty c = (case arguments c of None \<Rightarrow> [] | Some xs \<Rightarrow> xs)"

text \<open>\<open>{...argumentData, id, timestamp: argumentData.timestamp || now}\<close>.\<close>

definition make_entry :: "string \<Rightarrow> string \<Rightarrow> argument_data \<Rightarrow> argument_entry" where
  "make_entry now rid a =
     \<lparr> side = side a, argument = argument a, aiResponse = aiResponse a,
       timestamp = Some (js_or (timestamp a) now),
       argumentNumber = argumentNumber a, arg_id = rid \<rparr>"

definition addArgument ::
  "string \<Rightarrow> string \<Rightarrow> string \<Rightarrow> argument_data \<Rightarrow> store
     \<Rightarrow> (js_error + case_data) \<times> store" where
  "addArgument now rid cid argumentData st =
     (case getCase st cid of
        None \<Rightarrow> (Inl (Error ''Case not found''), st)
      | Some caseData \<Rightarrow>
          (let args = arguments_or_empty caseData @ [make_entry now rid argumentData];
               c1 = caseData\<lparr>arguments := Some args\<rparr>;
               c2 = c1\<lparr>metadata := (metadata c1)
                      \<lparr> totalArguments := length args,
                        sideAArguments := length (filter (\<lambda>arg. side arg = ''A'') args),
                        sideBArguments := length (filter (\<lambda>arg. side arg = ''B'') args),
                        lastActivity := now \<rparr>\<rparr>;
               c3 = c2\<lparr>status := ''arguments_phase''\<rparr>;
               (c4, st1) = saveCase now c3 st
           in (Inr c4, st1)))"

definition deleteCase :: "string \<Rightarrow> store \<Rightarrow> bool \<times> store" where
  "deleteCase cid st =
     (case st cid of None \<Rightarrow> (False, st) | Some c \<Rightarrow> (True, st(cid := None)))"

subsection \<open>The case service with its file paths\<close>

text \<open>
  \<open>getCase\<close> and \<open>saveCase\<close> reach a case through
  \<open>path.join(casesDir, `${caseId}.json`)\<close>. What that path denotes depends on the
  platform and on what the directory holds, so it is an input of the model: a file of the
  store, named by its key (two ids that join to the same path have the same key); a path
  with a missing directory, where a read finds nothing (ENOENT) and a write fails; or a
  path on which every access fails with another error (ENOTDIR, ENAMETOOLONG). The
  definitions above are the ones below on a platform where every id is the key of its
  own file. The text of an error leaves out the absolute path that Node appends.
\<close>

datatype target = File string | NoEntry | Inaccessible string

type_synonym platform = "store \<Rightarrow> string \<Rightarrow> target"

definition getCase_fs :: "platform \<Rightarrow> store \<Rightarrow> string \<Rightarrow> js_error + case_data option" where
  "getCase_fs P st cid =
     (case P st cid of
        File k \<Rightarrow> Inr (st k)
      | NoEntry \<Rightarrow> Inr None
      | Inaccessible m \<Rightarrow> Inl (Error (''Error loading case '' @ cid @ '': '' @ m)))"

definition saveCase_fs ::
  "platform \<Rightarrow> string \<Rightarrow> case_data \<Rightarrow> store \<Rightarrow> js_error + case_data \<times> store" where
  "saveCase_fs P now caseData st =
     (let c = caseData\<lparr>updatedAt := now\<rparr>
      in case P st (caseId c) of
           File k \<Rightarrow> Inr (c, st(k \<mapsto> c))
         | NoEntry \<Rightarrow>
             Inl (Error (''Error saving case '' @ caseId c @ '': '' @
                         ''ENOENT: no such file or directory''))
         | Inaccessible m \<Rightarrow> Inl (Error (''Error saving case '' @ caseId c @ '': '' @ m)))"

definition createCase_fs ::
  "platform \<Rightarrow> string \<Rightarrow> string \<Rightarrow> string \<Rightarrow> string \<Rightarrow> string \<Rightarrow> string option \<Rightarrow> store
     \<Rightarrow> js_error + case_data \<times> store" where
  "createCase_fs P newId now ttl descr ctry ctype st =
     saveCase_fs P now
       \<lparr> caseId = newId,
         title = ttl,
         description = descr,
         country = ctry,
         caseType = js_or ctype ''civil'',
         status = ''created'',
         createdAt = now,
         updatedAt = now,
         sideA = Some \<lparr> side_description = None, documents = Some [], uploadedAt = None \<rparr>,
         sideB = Some \<lparr> side_description = None, documents = Some [], uploadedAt = None \<rparr>,
         verdict = JNull,
         arguments = Some [],
         metadata = \<lparr> totalArguments = 0, sideAArguments = 0, sideBArguments = 0,
                      lastActivity = now \<rparr> \<rparr>
       st"

definition addDocumentsToSide_fs ::
  "platform \<Rightarrow> string \<Rightarrow> string \<Rightarrow> string \<Rightarrow> string \<Rightarrow> document_data \<Rightarrow> store
     \<Rightarrow> (js_error + case_data) \<times> store" where
  "addDocumentsToSide_fs P newId now cid sd documentData st =
     (case getCase_fs P st cid of
        Inl e \<Rightarrow> (Inl e, st)
      | Inr found \<Rightarrow>
          (case (case found of
                   None \<Rightarrow>
                     (case createCase_fs P newId now (''Case '' @ cid)
                             ''Auto-created case from document upload''
                             ''United States'' (Some ''civil'') st of
                        Inl e \<Rightarrow> Inl e
                      | Inr (c, s1) \<Rightarrow> Inr (c\<lparr>caseId := cid\<rparr>, s1))
                 | Some c \<Rightarrow> Inr (c, st)) of
             Inl e \<Rightarrow> (Inl e, st)
           | Inr (caseData, st1) \<Rightarrow>
               (let entry = \<lparr> side_description = dd_description documentData,
                              documents = Some (dd_documents documentData),
                              uploadedAt = Some now \<rparr>;
                    c1 = (if sd = ''A'' then caseData\<lparr>sideA := Some entry\<rparr>
                          else caseData\<lparr>sideB := Some entry\<rparr>)
                in case upload_status c1 of
                     Inl e \<Rightarrow> (Inl e, st1)
                   | Inr s \<Rightarrow>
                       (let c2 = c1\<lparr>status := s\<rparr>;
                            c3 = c2\<lparr>metadata := (metadata c2)\<lparr>lastActivity := now\<rparr>\<rparr>
                        in case saveCase_fs P now c3 st1 of
                             Inl e \<Rightarrow> (Inl e, st1)
                           | Inr (c4, st2) \<Rightarrow> (Inr c4, st2)))))"

text \<open>
  A platform to run on: POSIX paths, with the application at the root of the file system,
  so that \<open>casesDir\<close> is \<open>/data/cases\<close>. \<open>path.join\<close> drops empty and \<open>.\<close> segments
  and lets \<open>..\<close> remove the segment before it. The cases directory holds the case files
  and no directory, so a path that runs through it meets a missing directory, or a case
  file where a directory should be; outside the cases directory this platform has no
  file to read and allows no write.
\<close>

fun split_on :: "char \<Rightarrow> string \<Rightarrow> string list" where
  "split_on s [] = [[]]"
| "split_on s (c # cs) =
     (if c = s then [] # split_on s cs
      else (case split_on s cs of [] \<Rightarrow> [[c]] | x # xs \<Rightarrow> (c # x) # xs))"

definition join_step :: "string list \<Rightarrow> string \<Rightarrow> string list" where
  "join_step stack seg =
     (if seg = [] \<or> seg = ''.'' then stack
      else if seg = ''..'' then butlast stack
      else stack @ [seg])"

definition joined :: "string \<Rightarrow> string list" where
  "joined cid = foldl join_step [''data'', ''cases''] (split_on CHR ''/'' (cid @ ''.json''))"

definition strip_json :: "string \<Rightarrow> string" where
  "strip_json f = take (length f - 5) f"

definition posix :: platform where
  "posix st cid =
     (let p = joined cid; dirs = butlast p
      in if dirs = [''data'', ''cases''] then File (strip_json (last p))
         else if take 2 dirs = [''data'', ''cases'']
         then (if drop (length (dirs ! 2) - 5) (dirs ! 2) = ''.json'' \<and>
                  st (strip_json (dirs ! 2)) \<noteq> None
               then Inaccessible ''ENOTDIR: not a directory''
               else NoEntry)
         else NoEntry)"

section \<open>Document text extraction (services/documentParser.js)\<close>

text \<open>The code units \<open>\s\<close> matches, which are also the ones \<open>trim\<close> strips: tab, line
  feed, vertical tab, form feed, carriage return, space, no-break space, U+1680,
  U+2000 to U+200A, U+2028, U+2029, U+202F, U+205F, U+3000 and U+FEFF.\<close>

definition is_space :: "nat \<Rightarrow> bool" where
  "is_space c =
     (c = 9 \<or> c = 10 \<or> c = 11 \<or> c = 12 \<or> c = 13 \<or> c = 32 \<or> c = 160 \<or> c = 5760 \<or>
      (8192 \<le> c \<and> c \<le> 8202) \<or> c = 8232 \<or> c = 8233 \<or> c = 8239 \<or> c = 8287 \<or>
      c = 12288 \<or> c = 65279)"

text \<open>\<open>.replace(/\s+/g, ' ')\<close>\<close>

function collapse_spaces :: "jsstring \<Rightarrow> jsstring" where
  "collapse_spaces [] = []"
| "collapse_spaces (c # cs) =
     (if is_space c then 32 # collapse_spaces (dropWhile is_space cs)
      else c # collapse_spaces cs)"
  by pat_completeness auto
termination
  by (relation "measure length") (auto simp: less_Suc_eq_le length_dropWhile_le)

text \<open>The number of code units of \<open>s\<close> up to and including the last \<open>x\<close>.\<close>

definition upto_last :: "nat \<Rightarrow> jsstring \<Rightarrow> nat" where
  "upto_last x s = length s - length (takeWhile (\<lambda>c. c \<noteq> x) (rev s))"

text \<open>
  \<open>.replace(/\n\s*\n\s*\n/g, '\n\n')\<close>: at a line feed, the two greedy \<open>\s*\<close> reach the
  last line feed of the whitespace run that follows, and match when that run holds at
  least two line feeds; the scan resumes after the match.
\<close>

function squeeze_breaks :: "jsstring \<Rightarrow> jsstring" where
  "squeeze_breaks [] = []"
| "squeeze_breaks (c # cs) =
     (if c = 10 \<and> 2 \<le> length (filter (\<lambda>x. x = 10) (takeWhile is_space cs))
      then 10 # 10 # squeeze_breaks (drop (upto_last 10 (takeWhile is_space cs)) cs)
      else c # squeeze_breaks cs)"
  by pat_completeness auto
termination
  by (relation "measure length") auto

text \<open>\<open>.trim()\<close>\<close>

definition trim :: "jsstring \<Rightarrow> jsstring" where
  "trim s = rev (dropWhile is_space (rev (dropWhile is_space s)))"

definition cleanExtractedText :: "jsstring \<Rightarrow> jsstring" where
  "cleanExtractedText text =
     (if text = [] then [] else trim (squeeze_breaks (collapse_spaces text)))"

text \<open>The normalisation as the specification words it: every run of whitespace becomes
  one space, then the ends are trimmed.\<close>

fun spec_collapse_runs :: "bool \<Rightarrow> jsstring \<Rightarrow> jsstring" where
  "spec_collapse_runs in_run [] = []"
| "spec_collapse_runs in_run (c # cs) =
     (if is_space c then (if in_run then [] else [32]) @ spec_collapse_runs True cs
      else c # spec_collapse_runs False cs)"

definition spec_normalize :: "jsstring \<Rightarrow> jsstring" where
  "spec_normalize text = trim (spec_collapse_runs False text)"

text \<open>
  The libraries that decode the formats are inputs of the model: each call either throws
  (\<open>Inl\<close>, the message) or returns the text. A buffer is a list of bytes.
\<close>

record libs =
  readFile :: "string \<Rightarrow> string + nat list"
  readFile_utf8 :: "string \<Rightarrow> string + jsstring"
  pdfParse :: "nat list \<Rightarrow> string + jsstring"
  extractRawText_path :: "string \<Rightarrow> string + jsstring"
  extractRawText_buffer :: "nat list \<Rightarrow> string + jsstring"
  toString_utf8 :: "nat list \<Rightarrow> jsstring"

text \<open>\<open>!text || text.trim().length === 0\<close>\<close>

definition no_text :: "jsstring \<Rightarrow> bool" where
  "no_text text = (text = [] \<or> length (trim text) = 0)"

definition parsePDFFromBuffer :: "libs \<Rightarrow> nat list \<Rightarrow> js_error + jsstring" where
  "parsePDFFromBuffer L dataBuffer =
     (case pdfParse L dataBuffer of
        Inl m \<Rightarrow> Inl (Error (''PDF parsing failed: '' @ m))
      | Inr text \<Rightarrow>
          if no_text text
          then Inl (Error (''PDF parsing failed: '' @ ''No text content found in PDF''))
          else Inr (cleanExtractedText text))"

definition parsePDF :: "libs \<Rightarrow> string \<Rightarrow> js_error + jsstring" where
  "parsePDF L filePath =
     (case readFile L filePath of
        Inl m \<Rightarrow> Inl (Error (''PDF parsing failed: '' @ m))
      | Inr dataBuffer \<Rightarrow>
          (case pdfParse L dataBuffer of
             Inl m \<Rightarrow> Inl (Error (''PDF parsing failed: '' @ m))
           | Inr text \<Rightarrow>
               if no_text text
               then Inl (Error (''PDF parsing failed: '' @ ''No text content found in PDF''))
               else Inr (cleanExtractedText text)))"

definition parseWord :: "libs \<Rightarrow> string \<Rightarrow> js_error + jsstring" where
  "parseWord L filePath =
     (case extractRawText_path L filePath of
        Inl m \<Rightarrow> Inl (Error (''Word document parsing failed: '' @ m))
      | Inr text \<Rightarrow>
          if no_text text
          then Inl (Error (''Word document parsing failed: '' @
                 ''No text content found in Word document''))
          else Inr (cleanExtractedText text))"

definition parseWordFromBuffer :: "libs \<Rightarrow> nat list \<Rightarrow> js_error + jsstring" where
  "parseWordFromBuffer L buf =
     (case extractRawText_buffer L buf of
        Inl m \<Rightarrow> Inl (Error (''Word document parsing failed: '' @ m))
      | Inr text \<Rightarrow>
          if no_text text
          then Inl (Error (''Word document parsing failed: '' @
                 ''No text content found in Word document''))
          else Inr (cleanExtractedText text))"

definition parseText :: "libs \<Rightarrow> string \<Rightarrow> js_error + jsstring" where
  "parseText L filePath =
     (case readFile_utf8 L filePath of
        Inl m \<Rightarrow> Inl (Error (''Text file parsing failed: '' @ m))
      | Inr content \<Rightarrow>
          if no_text content
          then Inl (Error (''Text file parsing failed: '' @ ''Text file is empty''))
          else Inr (cleanExtractedText content))"

text \<open>The \<open>catch\<close> of \<open>parseDocument\<close> wraps whatever the chosen parser threw.\<close>

definition rethrow :: "js_error + jsstring \<Rightarrow> js_error + jsstring" where
  "rethrow r =
     (case r of
        Inl e \<Rightarrow> Inl (Error (''Failed to parse document: '' @ message e))
      | Inr t \<Rightarrow> Inr t)"

definition parseDocument :: "libs \<Rightarrow> string \<Rightarrow> string \<Rightarrow> js_error + jsstring" where
  "parseDocument L filePath mimeType =
     rethrow
       (if mimeType = ''application/pdf'' then parsePDF L filePath
        else if mimeType = ''application/msword'' \<or>
                mimeType = ''application/vnd.openxmlformats-officedocument.wordprocessingml.document''
        then parseWord L filePath
        else if mimeType = ''text/plain'' then parseText L filePath
        else Inl (Error (''Unsupported file type: '' @ mimeType)))"

definition parseDocumentFromBuffer :: "libs \<Rightarrow> nat list \<Rightarrow> string \<Rightarrow> js_error + jsstring" where
  "parseDocumentFromBuffer L buf mimeType =
     rethrow
       (if mimeType = ''application/pdf'' then parsePDFFromBuffer L buf
        else if mimeType = ''application/msword'' \<or>
                mimeType = ''application/vnd.openxmlformats-officedocument.wordprocessingml.document''
        then parseWordFromBuffer L buf
        else if mimeType = ''text/plain'' then Inr (cleanExtractedText (toString_utf8 L buf))
        else Inl (Error (''Unsupported file type: '' @ mimeType)))"

section \<open>Parsing the AI response (services/geminiService.js)\<close>

text \<open>
  \<open>response.match(/\{[\s\S]*\}/)\<close>: the match starts at the first opening brace
  (code unit 123) and, the star being greedy, ends at the last closing brace (125) after
  it; there is no match when no closing brace follows the first opening one.
\<close>

definition json_match :: "jsstring \<Rightarrow> jsstring option" where
  "json_match response =
     (case dropWhile (\<lambda>c. c \<noteq> 123) response of
        [] \<Rightarrow> None
      | b # rest \<Rightarrow>
          if 125 \<in> set rest then Some (b # take (upto_last 125 rest) rest) else None)"

definition verdict_fallback :: "jsstring \<Rightarrow> obj" where
  "verdict_fallback response =
     [ (''decision'', JStr (lit ''insufficient_evidence'')),
       (''reasoning'', JStr response),
       (''keyFindings'', JArr []),
       (''legalPrinciples'', JArr []),
       (''damages'', JNull),
       (''notes'', JStr (lit ''Response could not be parsed into structured format'')),
       (''confidence'', JNum (1 / 2)),
       (''openToReconsideration'', JBool True) ]"

definition argument_fallback :: "jsstring \<Rightarrow> obj" where
  "argument_fallback response =
     [ (''response'', JStr response),
       (''verdictChange'', JStr (lit ''none'')),
       (''newReasoning'', JNull),
       (''addressedPoints'', JArr []),
       (''remainingConcerns'', JArr []),
       (''legalCitations'', JArr []),
       (''confidence'', JNum (1 / 2)),
       (''requestsClarification'', JNull) ]"

text \<open>
  \<open>JSON.parse\<close> is an input of the model: \<open>None\<close> when it throws, otherwise the
  properties of the object it returns (the text it is given starts with a brace, so a
  successful parse is an object).
\<close>

definition parseVerdictResponse :: "(jsstring \<Rightarrow> obj option) \<Rightarrow> jsstring \<Rightarrow> obj" where
  "parseVerdictResponse JSON_parse response =
     (case json_match response of
        None \<Rightarrow> verdict_fallback response
      | Some jsonMatch \<Rightarrow>
          (case JSON_parse jsonMatch of
             None \<Rightarrow> verdict_fallback response
           | Some parsed \<Rightarrow> parsed))"

definition parseArgumentResponse :: "(jsstring \<Rightarrow> obj option) \<Rightarrow> jsstring \<Rightarrow> obj" where
  "parseArgumentResponse JSON_parse response =
     (case json_match response of
        None \<Rightarrow> argument_fallback response
      | Some jsonMatch \<Rightarrow>
          (case JSON_parse jsonMatch of
             None \<Rightarrow> argument_fallback response
           | Some parsed \<Rightarrow> parsed))"

text \<open>
  The provider's answer to a prompt is an input as well: \<open>None\<close> when no API key is
  configured (\<open>model\<close> is null), \<open>Some (Inl m)\<close> when the call throws with message \<open>m\<close>,
  \<open>Some (Inr text)\<close> when it answers. The prompt templates do not enter the model.
\<close>

type_synonym ai_reply = "(string + jsstring) option"

text \<open>\<open>{...o, k: v}\<close> sets property \<open>k\<close> of a copy of \<open>o\<close>.\<close>

definition set_prop :: "string \<Rightarrow> json \<Rightarrow> obj \<Rightarrow> obj" where
  "set_prop k v ob = AList.update k v ob"

definition generateVerdict ::
  "(jsstring \<Rightarrow> obj option) \<Rightarrow> ai_reply \<Rightarrow> string \<Rightarrow> case_data \<Rightarrow> js_error + json" where
  "generateVerdict JSON_parse reply now caseData =
     (case reply of
        None \<Rightarrow>
          Inl (Error ''Gemini API not configured. Please set GEMINI_API_KEY environment variable.'')
      | Some (Inl m) \<Rightarrow> Inl (Error (''Failed to generate AI verdict: '' @ m))
      | Some (Inr verdictText) \<Rightarrow>
          Inr (JObj
            (set_prop ''caseType'' (JStr (lit (caseType caseData)))
            (set_prop ''country'' (JStr (lit (country caseData)))
            (set_prop ''caseId'' (JStr (lit (caseId caseData)))
            (set_prop ''timestamp'' (JStr (lit now))
              (parseVerdictResponse JSON_parse verdictText)))))))"

definition respondToArgument ::
  "(jsstring \<Rightarrow> obj option) \<Rightarrow> ai_reply \<Rightarrow> string \<Rightarrow> case_data \<Rightarrow> string \<Rightarrow> string
     \<Rightarrow> js_error + obj" where
  "respondToArgument JSON_parse reply now caseData sd arg =
     (case reply of
        None \<Rightarrow>
          Inl (Error ''Gemini API not configured. Please set GEMINI_API_KEY environment variable.'')
      | Some (Inl m) \<Rightarrow> Inl (Error (''Failed to generate AI response: '' @ m))
      | Some (Inr responseText) \<Rightarrow>
          Inr (set_prop ''side'' (JStr (lit sd))
              (set_prop ''originalArgument'' (JStr (lit arg))
              (set_prop ''timestamp'' (JStr (lit now))
                (parseArgumentResponse JSON_parse responseText)))))"

section \<open>The HTTP handlers (index.js, routes/upload.js)\<close>

text \<open>A response is its status code and its JSON body; a handler, run from its
  first line to its response with no other request in between, maps the store to a
  response and the store it leaves.\<close>

datatype body =
    ErrorBody string
  | UploadBody string string nat "(string \<times> nat \<times> nat) list"
  | CreateBody string case_data
  | CaseBody case_data
  | JudgeBody string string json
  | ArgueBody string string string nat string obj int
  | DeleteBody string string

type_synonym response = "nat \<times> body"

record upload_file =
  originalname :: string
  file_path :: string
  file_mimetype :: string
  file_size :: nat
  buffer :: "nat list"

text \<open>The loop of the disk-storage handlers: a file that fails to parse is logged and
  skipped.\<close>

fun parse_files :: "libs \<Rightarrow> upload_file list \<Rightarrow> document list" where
  "parse_files L [] = []"
| "parse_files L (file # files) =
     (case parseDocument L (file_path file) (file_mimetype file) of
        Inl parseError \<Rightarrow> parse_files L files
      | Inr text \<Rightarrow>
          \<lparr> filename = originalname file, path = file_path file,
            mimetype = file_mimetype file, doc_size = file_size file,
            extractedText = text, fileUrl = None \<rparr> # parse_files L files)"

definition summaries :: "document list \<Rightarrow> (string \<times> nat \<times> nat) list" where
  "summaries docs = map (\<lambda>doc. (filename doc, doc_size doc, length (extractedText doc))) docs"

definition upload_handler ::
  "libs \<Rightarrow> string \<Rightarrow> string \<Rightarrow> string \<Rightarrow> string \<Rightarrow> string option
     \<Rightarrow> upload_file list option \<Rightarrow> store \<Rightarrow> response \<times> store" where
  "upload_handler L newId now sd cid descr files st =
     (case files of
        None \<Rightarrow> ((400, ErrorBody ''No files uploaded''), st)
      | Some fs \<Rightarrow>
          if length fs = 0 then ((400, ErrorBody ''No files uploaded''), st)
          else
            (let parsedDocuments = parse_files L fs in
             case addDocumentsToSide newId now cid sd
                    \<lparr> dd_description = descr, dd_documents = parsedDocuments \<rparr> st of
               (Inl e, st1) \<Rightarrow> ((500, ErrorBody ''Failed to process uploaded documents''), st1)
             | (Inr caseData, st1) \<Rightarrow>
                 ((200, UploadBody (''Documents uploaded and processed for Side '' @ sd)
                          (caseId caseData) (length parsedDocuments)
                          (summaries parsedDocuments)), st1)))"

definition upload_side_a ::
  "libs \<Rightarrow> string \<Rightarrow> string \<Rightarrow> string \<Rightarrow> string option \<Rightarrow> upload_file list option
     \<Rightarrow> store \<Rightarrow> response \<times> store" where
  "upload_side_a L newId now = upload_handler L newId now ''A''"

definition upload_side_b ::
  "libs \<Rightarrow> string \<Rightarrow> string \<Rightarrow> string \<Rightarrow> string option \<Rightarrow> upload_file list option
     \<Rightarrow> store \<Rightarrow> response \<times> store" where
  "upload_side_b L newId now = upload_handler L newId now ''B''"

text \<open>
  The blob-storage handlers (routes/upload.js) parse the buffer, then push the file to
  the bucket; \<open>uploadToSupabase\<close> is an input, throwing or returning the public URL and
  the storage path. Here a file that fails is rethrown and ends the request. They call
  \<open>caseService.addDocumentsToSide\<close> as the disk-storage handlers do; the model gives them
  the case service above.
\<close>

fun parse_and_store_files ::
  "libs \<Rightarrow> (upload_file \<Rightarrow> string \<Rightarrow> string \<Rightarrow> string + string \<times> string) \<Rightarrow> string \<Rightarrow> string
     \<Rightarrow> upload_file list \<Rightarrow> js_error + document list" where
  "parse_and_store_files L uploadToSupabase cid dir [] = Inr []"
| "parse_and_store_files L uploadToSupabase cid dir (file # files) =
     (case parseDocumentFromBuffer L (buffer file) (file_mimetype file) of
        Inl parseError \<Rightarrow> Inl parseError
      | Inr text \<Rightarrow>
          (case uploadToSupabase file cid dir of
             Inl m \<Rightarrow> Inl (Error m)
           | Inr (url, storagePath) \<Rightarrow>
               (case parse_and_store_files L uploadToSupabase cid dir files of
                  Inl e \<Rightarrow> Inl e
                | Inr docs \<Rightarrow>
                    Inr (\<lparr> filename = originalname file, path = storagePath,
                           mimetype = file_mimetype file, doc_size = file_size file,
                           extractedText = text, fileUrl = Some url \<rparr> # docs))))"

definition blob_upload_handler ::
  "libs \<Rightarrow> (upload_file \<Rightarrow> string \<Rightarrow> string \<Rightarrow> string + string \<times> string) \<Rightarrow> string \<Rightarrow> string
     \<Rightarrow> string \<Rightarrow> string \<Rightarrow> string option \<Rightarrow> upload_file list option \<Rightarrow> store
     \<Rightarrow> response \<times> store" where
  "blob_upload_handler L uploadToSupabase newId now sd cid descr files st =
     (case files of
        None \<Rightarrow> ((400, ErrorBody ''No files uploaded''), st)
      | Some fs \<Rightarrow>
          if length fs = 0 then ((400, ErrorBody ''No files uploaded''), st)
          else
            (case parse_and_store_files L uploadToSupabase cid
                    (if sd = ''A'' then ''side-a'' else ''side-b'') fs of
               Inl e \<Rightarrow> ((500, ErrorBody ''Failed to process uploaded documents''), st)
             | Inr parsedDocuments \<Rightarrow>
                 (case addDocumentsToSide newId now cid sd
                         \<lparr> dd_description = descr, dd_documents = parsedDocuments \<rparr> st of
                    (Inl e, st1) \<Rightarrow>
                      ((500, ErrorBody ''Failed to process uploaded documents''), st1)
                  | (Inr caseData, st1) \<Rightarrow>
                      ((200, UploadBody (''Documents uploaded and processed for Side '' @ sd)
                               (caseId caseData) (length parsedDocuments)
                               (summaries parsedDocuments)), st1))))"

definition blob_upload_side_a ::
  "libs \<Rightarrow> (upload_file \<Rightarrow> string \<Rightarrow> string \<Rightarrow> string + string \<times> string) \<Rightarrow> string \<Rightarrow> string
     \<Rightarrow> string \<Rightarrow> string option \<Rightarrow> upload_file list option \<Rightarrow> store \<Rightarrow> response \<times> store" where
  "blob_upload_side_a L uploadToSupabase newId now =
     blob_upload_handler L uploadToSupabase newId now ''A''"

definition blob_upload_side_b ::
  "libs \<Rightarrow> (upload_file \<Rightarrow> string \<Rightarrow> string \<Rightarrow> string + string \<times> string) \<Rightarrow> string \<Rightarrow> string
     \<Rightarrow> string \<Rightarrow> string option \<Rightarrow> upload_file list option \<Rightarrow> store \<Rightarrow> response \<times> store" where
  "blob_upload_side_b L uploadToSupabase newId now =
     blob_upload_handler L uploadToSupabase newId now ''B''"

definition create_handler ::
  "string \<Rightarrow> string \<Rightarrow> string option \<Rightarrow> string option \<Rightarrow> string option \<Rightarrow> string option
     \<Rightarrow> store \<Rightarrow> response \<times> store" where
  "create_handler newId now ttl descr ctry ctype st =
     (case (ttl, descr, ctry) of
        (Some t, Some d, Some c) \<Rightarrow>
          if t = [] \<or> d = [] \<or> c = []
          then ((400, ErrorBody ''Title, description, and country are required''), st)
          else
            (let (newCase, st1) = createCase newId now t d c (Some (js_or ctype ''civil'')) st
             in ((200, CreateBody ''Case created successfully'' newCase), st1))
      | _ \<Rightarrow> ((400, ErrorBody ''Title, description, and country are required''), st))"

definition get_handler :: "string \<Rightarrow> store \<Rightarrow> response \<times> store" where
  "get_handler cid st =
     (case getCase st cid of
        None \<Rightarrow> ((404, ErrorBody ''Case not found''), st)
      | Some caseData \<Rightarrow> ((200, CaseBody caseData), st))"

text \<open>\<open>!caseData.sideX?.documents\<close>: true when the side, or its \<open>documents\<close> property,
  is absent. An array is an object, so the test is false for every array.\<close>

definition documents_missing :: "side_data option \<Rightarrow> bool" where
  "documents_missing s = (case s of None \<Rightarrow> True | Some sd \<Rightarrow> documents sd = None)"

definition judge_handler ::
  "(jsstring \<Rightarrow> obj option) \<Rightarrow> ai_reply \<Rightarrow> string \<Rightarrow> string \<Rightarrow> store \<Rightarrow> response \<times> store" where
  "judge_handler JSON_parse reply now cid st =
     (case getCase st cid of
        None \<Rightarrow> ((404, ErrorBody ''Case not found''), st)
      | Some caseData \<Rightarrow>
          if documents_missing (sideA caseData) \<or> documents_missing (sideB caseData)
          then ((400, ErrorBody
                  ''Both sides must submit documents before judgment can be rendered''), st)
          else
            (case generateVerdict JSON_parse reply now caseData of
               Inl e \<Rightarrow> ((500, ErrorBody ''Failed to generate verdict''), st)
             | Inr v \<Rightarrow>
                 (case setVerdict now cid v st of
                    (Inl e, st1) \<Rightarrow> ((500, ErrorBody ''Failed to generate verdict''), st1)
                  | (Inr updatedCase, st1) \<Rightarrow>
                      ((200, JudgeBody ''AI Judge has rendered a verdict'' cid v), st1))))"

definition argue_handler ::
  "(jsstring \<Rightarrow> obj option) \<Rightarrow> ai_reply \<Rightarrow> string \<Rightarrow> string \<Rightarrow> string \<Rightarrow> string option
     \<Rightarrow> string option \<Rightarrow> store \<Rightarrow> response \<times> store" where
  "argue_handler JSON_parse reply now rid cid sd_opt arg_opt st =
     (case (sd_opt, arg_opt) of
        (Some sd, Some arg) \<Rightarrow>
          if sd = [] \<or> arg = [] then ((400, ErrorBody ''Side and argument are required''), st)
          else if sd \<noteq> ''A'' \<and> sd \<noteq> ''B''
          then ((400, ErrorBody ''Side must be either A or B''), st)
          else
            (case getCase st cid of
               None \<Rightarrow> ((404, ErrorBody ''Case not found''), st)
             | Some caseData \<Rightarrow>
                 if \<not> truthy (verdict caseData)
                 then ((400, ErrorBody
                   ''Initial verdict must be rendered before arguments can be submitted''), st)
                 else
                   (let currentArguments = arguments_or_empty caseData;
                        sideArguments = filter (\<lambda>a. side a = sd) currentArguments
                    in if length sideArguments \<ge> 5
                       then ((400, ErrorBody
                         ''Maximum number of arguments (5) reached for this side''), st)
                       else
                         (case respondToArgument JSON_parse reply now caseData sd arg of
                            Inl e \<Rightarrow> ((500, ErrorBody ''Failed to process argument''), st)
                          | Inr r \<Rightarrow>
                              (case addArgument now rid cid
                                      \<lparr> side = sd, argument = arg, aiResponse = r,
                                        timestamp = Some now,
                                        argumentNumber = length sideArguments + 1 \<rparr> st of
                                 (Inl e, st1) \<Rightarrow>
                                   ((500, ErrorBody ''Failed to process argument''), st1)
                               | (Inr updatedCase, st1) \<Rightarrow>
                                   ((200, ArgueBody ''Argument submitted and AI has responded''
                                      cid sd (length sideArguments + 1) arg r
                                      (5 - (int (length sideArguments) + 1))), st1)))))
      | _ \<Rightarrow> ((400, ErrorBody ''Side and argument are required''), st))"

definition delete_handler :: "string \<Rightarrow> store \<Rightarrow> response \<times> store" where
  "delete_handler cid st =
     (case deleteCase cid st of
        (False, st1) \<Rightarrow> ((404, ErrorBody ''Case not found''), st1)
      | (True, st1) \<Rightarrow> ((200, DeleteBody ''Case deleted successfully'' cid), st1))"

text \<open>
  The two handlers that call the provider, cut where they wait for it. The first part
  reads the case, runs the checks and obtains the provider's answer; it ends the request
  with a response, or hands on what the second part is to store. The second part is the
  call of the case service, which reads the case again, and the response.
\<close>

definition judge_check ::
  "(jsstring \<Rightarrow> obj option) \<Rightarrow> ai_reply \<Rightarrow> string \<Rightarrow> string \<Rightarrow> store \<Rightarrow> response + json" where
  "judge_check JSON_parse reply now cid st =
     (case getCase st cid of
        None \<Rightarrow> Inl (404, ErrorBody ''Case not found'')
      | Some caseData \<Rightarrow>
          if documents_missing (sideA caseData) \<or> documents_missing (sideB caseData)
          then Inl (400, ErrorBody
                  ''Both sides must submit documents before judgment can be rendered'')
          else
            (case generateVerdict JSON_parse reply now caseData of
               Inl e \<Rightarrow> Inl (500, ErrorBody ''Failed to generate verdict'')
             | Inr v \<Rightarrow> Inr v))"

definition judge_commit :: "string \<Rightarrow> string \<Rightarrow> json \<Rightarrow> store \<Rightarrow> response \<times> store" where
  "judge_commit now cid v st =
     (case setVerdict now cid v st of
        (Inl e, st1) \<Rightarrow> ((500, ErrorBody ''Failed to generate verdict''), st1)
      | (Inr updatedCase, st1) \<Rightarrow>
          ((200, JudgeBody ''AI Judge has rendered a verdict'' cid v), st1))"

definition argue_check ::
  "(jsstring \<Rightarrow> obj option) \<Rightarrow> ai_reply \<Rightarrow> string \<Rightarrow> string \<Rightarrow> string option
     \<Rightarrow> string option \<Rightarrow> store \<Rightarrow> response + argument_data" where
  "argue_check JSON_parse reply now cid sd_opt arg_opt st =
     (case (sd_opt, arg_opt) of
        (Some sd, Some arg) \<Rightarrow>
          if sd = [] \<or> arg = [] then Inl (400, ErrorBody ''Side and argument are required'')
          else if sd \<noteq> ''A'' \<and> sd \<noteq> ''B''
          then Inl (400, ErrorBody ''Side must be either A or B'')
          else
            (case getCase st cid of
               None \<Rightarrow> Inl (404, ErrorBody ''Case not found'')
             | Some caseData \<Rightarrow>
                 if \<not> truthy (verdict caseData)
                 then Inl (400, ErrorBody
                   ''Initial verdict must be rendered before arguments can be submitted'')
                 else
                   (let currentArguments = arguments_or_empty caseData;
                        sideArguments = filter (\<lambda>a. side a = sd) currentArguments
                    in if length sideArguments \<ge> 5
                       then Inl (400, ErrorBody
                         ''Maximum number of arguments (5) reached for this side'')
                       else
                         (case respondToArgument JSON_parse reply now caseData sd arg of
                            Inl e \<Rightarrow> Inl (500, ErrorBody ''Failed to process argument'')
                          | Inr r \<Rightarrow>
                              Inr \<lparr> side = sd, argument = arg, aiResponse = r,
                                    timestamp = Some now,
                                    argumentNumber = length sideArguments + 1 \<rparr>)))
      | _ \<Rightarrow> Inl (400, ErrorBody ''Side and argument are required''))"

definition argue_commit ::
  "string \<Rightarrow> string \<Rightarrow> string \<Rightarrow> argument_data \<Rightarrow> store \<Rightarrow> response \<times> store" where
  "argue_commit now rid cid a st =
     (case addArgument now rid cid a st of
        (Inl e, st1) \<Rightarrow> ((500, ErrorBody ''Failed to process argument''), st1)
      | (Inr updatedCase, st1) \<Rightarrow>
          ((200, ArgueBody ''Argument submitted and AI has responded'' cid (side a)
                   (argumentNumber a) (argument a) (aiResponse a)
                   (5 - int (argumentNumber a))), st1))"

text \<open>
  The stores that requests handled one at a time leave, starting from an empty data
  directory: each handler runs from its first line to its response before the next
  request is taken.
\<close>

inductive serial :: "store \<Rightarrow> bool" where
  start: "serial Map.empty"
| upload_a:
    "serial st \<Longrightarrow> serial (snd (upload_side_a L newId now cid descr files st))"
| upload_b:
    "serial st \<Longrightarrow> serial (snd (upload_side_b L newId now cid descr files st))"
| blob_upload_a:
    "serial st \<Longrightarrow> serial (snd (blob_upload_side_a L up newId now cid descr files st))"
| blob_upload_b:
    "serial st \<Longrightarrow> serial (snd (blob_upload_side_b L up newId now cid descr files st))"
| create:
    "serial st \<Longrightarrow> serial (snd (create_handler newId now ttl descr ctry ctype st))"
| fetch:
    "serial st \<Longrightarrow> serial (snd (get_handler cid st))"
| judge:
    "serial st \<Longrightarrow> serial (snd (judge_handler JSON_parse reply now cid st))"
| argue:
    "serial st \<Longrightarrow> serial (snd (argue_handler JSON_parse reply now rid cid sd arg st))"
| delete:
    "serial st \<Longrightarrow> serial (snd (delete_handler cid st))"

text \<open>
  The stores that overlapping requests leave. A request that waits for the provider is
  kept, with what it will store, in the list of pending requests; other requests run
  meanwhile, and the pending one completes on the store it then finds. Each call of the
  case service counts as one step.
\<close>

datatype pending = PendingVerdict string json | PendingArgument string argument_data

inductive reachable :: "store \<Rightarrow> pending list \<Rightarrow> bool" where
  start: "reachable Map.empty []"
| upload_a:
    "reachable st ps \<Longrightarrow> reachable (snd (upload_side_a L newId now cid descr files st)) ps"
| upload_b:
    "reachable st ps \<Longrightarrow> reachable (snd (upload_side_b L newId now cid descr files st)) ps"
| blob_upload_a:
    "reachable st ps \<Longrightarrow>
     reachable (snd (blob_upload_side_a L up newId now cid descr files st)) ps"
| blob_upload_b:
    "reachable st ps \<Longrightarrow>
     reachable (snd (blob_upload_side_b L up newId now cid descr files st)) ps"
| create:
    "reachable st ps \<Longrightarrow>
     reachable (snd (create_handler newId now ttl descr ctry ctype st)) ps"
| fetch:
    "reachable st ps \<Longrightarrow> reachable (snd (get_handler cid st)) ps"
| judge_begin:
    "reachable st ps \<Longrightarrow> judge_check JSON_parse reply now cid st = Inr v \<Longrightarrow>
     reachable st (PendingVerdict cid v # ps)"
| judge_end:
    "reachable st ps \<Longrightarrow> PendingVerdict cid v \<in> set ps \<Longrightarrow>
     reachable (snd (judge_commit now cid v st)) (remove1 (PendingVerdict cid v) ps)"
| argue_begin:
    "reachable st ps \<Longrightarrow> argue_check JSON_parse reply now cid sd arg st = Inr a \<Longrightarrow>
     reachable st (PendingArgument cid a # ps)"
| argue_end:
    "reachable st ps \<Longrightarrow> PendingArgument cid a \<in> set ps \<Longrightarrow>
     reachable (snd (argue_commit now rid cid a st)) (remove1 (PendingArgument cid a) ps)"
| delete:
    "reachable st ps \<Longrightarrow> reachable (snd (delete_handler cid st)) ps"

definition statuses :: "string list" where
  "statuses = [''created'', ''awaiting_documents'', ''ready_for_judgment'',
               ''verdict_rendered'', ''arguments_phase'']"

text \<open>Every stored status is one of the five values.\<close>

definition statuses_ok :: "store \<Rightarrow> bool" where
  "statuses_ok st = (\<forall>k c. st k = Some c \<longrightarrow> status c \<in> set statuses)"

text \<open>What every record satisfies in a store left by requests handled one at a time.\<close>

definition case_ok :: "case_data \<Rightarrow> bool" where
  "case_ok c =
     (\<not> documents_missing (sideA c) \<and> \<not> documents_missing (sideB c) \<and>
      status c \<in> set statuses \<and>
      (arguments_or_empty c \<noteq> [] \<longrightarrow> truthy (verdict c)) \<and>
      (\<forall>s. length (filter (\<lambda>a. side a = s) (arguments_or_empty c)) \<le> 5))"

definition store_ok :: "store \<Rightarrow> bool" where
  "store_ok st = (\<forall>k c. st k = Some c \<longrightarrow> caseId c = k \<and> case_ok c)"

text \<open>The side record \<open>addDocumentsToSide\<close> writes, and the one \<open>createCase\<close> starts
  from.\<close>

definition new_side :: "string \<Rightarrow> document_data \<Rightarrow> side_data" where
  "new_side now dd = \<lparr> side_description = dd_description dd,
                    documents = Some (dd_documents dd), uploadedAt = Some now \<rparr>"

definition empty_side :: side_data where
  "empty_side = \<lparr> side_description = None, documents = Some [], uploadedAt = None \<rparr>"

text \<open>A side has at least one document.\<close>

definition has_documents :: "side_data option \<Rightarrow> bool" where
  "has_documents s =
     (case s of
        None \<Rightarrow> False
      | Some sd \<Rightarrow> (case documents sd of None \<Rightarrow> False | Some ds \<Rightarrow> ds \<noteq> []))"

text \<open>
  A run used to exercise the handlers. A case is created; the verdict is requested while
  both document lists are still empty, the provider answering with a text that holds no
  JSON; side A then argues, up to five times. In a second run side B uploads one text
  file before anything else happens.
\<close>

definition created_store :: store where
  "created_store =
     snd (create_handler ''c1'' ''t0'' (Some ''T'') (Some ''D'') (Some ''US'') None Map.empty)"

definition judged_store :: store where
  "judged_store =
     snd (judge_handler (\<lambda>s. None) (Some (Inr [111, 107])) ''t1'' ''c1'' created_store)"

definition argue_a :: "string \<Rightarrow> store \<Rightarrow> store" where
  "argue_a rid st =
     snd (argue_handler (\<lambda>s. None) (Some (Inr [111, 107])) ''t2'' rid ''c1''
            (Some ''A'') (Some ''x'') st)"

definition argued_store :: store where
  "argued_store = argue_a ''r1'' judged_store"

definition full_store :: store where
  "full_store = argue_a ''r5'' (argue_a ''r4'' (argue_a ''r3'' (argue_a ''r2'' argued_store)))"

definition four_store :: store where
  "four_store = argue_a ''r4'' (argue_a ''r3'' (argue_a ''r2'' argued_store))"

text \<open>
  Overlapping requests. On the case that holds four arguments of side A, two more
  arguments of side A are submitted before either has heard from the provider: both
  pass the checks with the same data, then both are stored.
\<close>

definition provider_answer :: obj where
  "provider_answer =
     set_prop ''side'' (JStr (lit ''A''))
       (set_prop ''originalArgument'' (JStr (lit ''x''))
         (set_prop ''timestamp'' (JStr (lit ''t2'')) (argument_fallback [111, 107])))"

definition fifth_argument :: argument_data where
  "fifth_argument =
     \<lparr> side = ''A'', argument = ''x'', aiResponse = provider_answer, timestamp = Some ''t2'',
       argumentNumber = 5 \<rparr>"

definition overlapped_store :: store where
  "overlapped_store =
     snd (argue_commit ''t4'' ''r6'' ''c1'' fifth_argument
            (snd (argue_commit ''t3'' ''r5'' ''c1'' fifth_argument four_store)))"

text \<open>
  On the judged case, side A submits its first argument; while the provider is awaited
  the case is deleted and side A uploads a text file under the same id, which creates
  the case anew; then the argument is stored.
\<close>

definition first_argument :: argument_data where
  "first_argument =
     \<lparr> side = ''A'', argument = ''x'', aiResponse = provider_answer, timestamp = Some ''t2'',
       argumentNumber = 1 \<rparr>"

definition text_libs :: libs where
  "text_libs =
     \<lparr> readFile = (\<lambda>p. Inl ''ENOENT''),
       readFile_utf8 = (\<lambda>p. Inr [104, 105]),
       pdfParse = (\<lambda>b. Inl ''Invalid PDF structure''),
       extractRawText_path = (\<lambda>p. Inl ''Could not find file''),
       extractRawText_buffer = (\<lambda>b. Inl ''Could not find file''),
       toString_utf8 = (\<lambda>b. b) \<rparr>"

definition text_file :: upload_file where
  "text_file =
     \<lparr> originalname = ''b.txt'', file_path = ''uploads/b.txt'', file_mimetype = ''text/plain'',
       file_size = 2, buffer = [104, 105] \<rparr>"

definition uploaded_store :: store where
  "uploaded_store =
     snd (upload_side_b text_libs ''n1'' ''t1'' ''c1'' None (Some [text_file]) created_store)"

definition recreated_store :: store where
  "recreated_store =
     snd (argue_commit ''t4'' ''r1'' ''c1'' first_argument
            (snd (upload_side_a text_libs ''n2'' ''t3'' ''c1'' None (Some [text_file])
                   (snd (delete_handler ''c1'' judged_store)))))"

definition text_document :: document where
  "text_document =
     \<lparr> filename = ''b.txt'', path = ''uploads/b.txt'', mimetype = ''text/plain'',
       doc_size = 2, extractedText = [104, 105], fileUrl = None \<rparr>"

section \<open>Properties\<close>

subsection \<open>Requests handled one at a time\<close>

lemma store_ok_empty: "store_ok Map.empty"
  by (simp add: store_ok_def)

lemma store_ok_upd:
  "store_ok st \<Longrightarrow> case_ok c \<Longrightarrow> caseId c = k \<Longrightarrow> store_ok (st(k \<mapsto> c))"
  by (simp add: store_ok_def)

lemma store_ok_del: "store_ok st \<Longrightarrow> store_ok (st(k := None))"
  by (simp add: store_ok_def)

lemma store_okD: "store_ok st \<Longrightarrow> st k = Some c \<Longrightarrow> caseId c = k \<and> case_ok c"
  by (simp add: store_ok_def)

lemma createCase_eq:
  "\<exists>c. createCase newId now t d ctry ct st = (c, st(newId \<mapsto> c)) \<and> caseId c = newId \<and>
        case_ok c \<and> status c = ''created'' \<and> title c = t \<and> country c = ctry \<and>
        caseType c = js_or ct ''civil'' \<and> description c = d \<and>
        sideA c = Some empty_side \<and> sideB c = Some empty_side \<and>
        verdict c = JNull \<and> arguments c = Some []"
  by (simp add: createCase_def saveCase_def Let_def case_ok_def documents_missing_def
      statuses_def arguments_or_empty_def empty_side_def)

lemma upload_status_cases:
  "upload_status c = Inr s \<Longrightarrow>
     \<not> documents_missing (sideA c) \<and> s \<in> set statuses \<and>
     s = (if has_documents (sideA c) \<and> has_documents (sideB c)
          then ''ready_for_judgment'' else ''awaiting_documents'')"
  by (auto simp: upload_status_def documents_length_def documents_missing_def statuses_def
      has_documents_def split: option.splits sum.splits if_splits)

lemma addDocs_new:
  assumes "getCase st cid = None"
  shows "\<exists>c'. addDocumentsToSide newId now cid sd dd st =
             (Inr c', st(newId \<mapsto> fst (createCase newId now (''Case '' @ cid)
                 ''Auto-created case from document upload'' ''United States'' (Some ''civil'') st),
                 cid \<mapsto> c')) \<and>
           case_ok c' \<and>
           caseId c' = cid \<and> title c' = ''Case '' @ cid \<and> country c' = ''United States'' \<and>
           caseType c' = ''civil'' \<and> verdict c' = JNull \<and> arguments c' = Some [] \<and>
           sideA c' = Some (if sd = ''A'' then new_side now dd else empty_side) \<and>
           sideB c' = Some (if sd = ''A'' then empty_side else new_side now dd) \<and>
           status c' = ''awaiting_documents''"
  using assms
  by (simp add: addDocumentsToSide_def createCase_def saveCase_def Let_def case_ok_def
      documents_missing_def statuses_def arguments_or_empty_def upload_status_def
      documents_length_def js_or_def new_side_def empty_side_def)

lemma addDocs_existing:
  assumes "getCase st cid = Some c" "\<not> documents_missing (sideA c)" "\<not> documents_missing (sideB c)"
  shows "\<exists>c' s. addDocumentsToSide newId now cid sd dd st = (Inr c', st(caseId c \<mapsto> c')) \<and>
           c' = (if sd = ''A'' then c\<lparr>sideA := Some (new_side now dd)\<rparr>
                 else c\<lparr>sideB := Some (new_side now dd)\<rparr>)
                \<lparr>status := s, metadata := (metadata c)\<lparr>lastActivity := now\<rparr>, updatedAt := now\<rparr> \<and>
           upload_status (if sd = ''A'' then c\<lparr>sideA := Some (new_side now dd)\<rparr>
                 else c\<lparr>sideB := Some (new_side now dd)\<rparr>) = Inr s"
  using assms
  by (auto simp add: addDocumentsToSide_def saveCase_def Let_def
      documents_missing_def  upload_status_def
      documents_length_def new_side_def split: option.splits)

lemma addDocumentsToSide_ok:
  assumes "store_ok st"
  shows "store_ok (snd (addDocumentsToSide newId now cid sd dd st))"
proof (cases "getCase st cid")
  case None
  obtain c0 where c0: "createCase newId now (''Case '' @ cid)
      ''Auto-created case from document upload'' ''United States'' (Some ''civil'') st
      = (c0, st(newId \<mapsto> c0))" "caseId c0 = newId" "case_ok c0"
    using createCase_eq by blast
  have f: "fst (createCase newId now (''Case '' @ cid)
      ''Auto-created case from document upload'' ''United States'' (Some ''civil'') st) = c0"
    using c0(1) by simp
  from addDocs_new[OF None, of newId now sd dd] obtain c' where
    eq: "addDocumentsToSide newId now cid sd dd st = (Inr c', st(newId \<mapsto> c0, cid \<mapsto> c'))"
    and ok: "case_ok c'" "caseId c' = cid" unfolding f by blast
  show ?thesis using assms ok c0 by (simp add: eq store_ok_upd)
next
  case (Some c)
  then have k: "caseId c = cid" and cok: "case_ok c"
    using assms store_okD by (auto simp: getCase_def)
  then have m: "\<not> documents_missing (sideA c)" "\<not> documents_missing (sideB c)"
    by (simp_all add: case_ok_def)
  from addDocs_existing[OF Some m, of newId now sd dd] obtain c' s where
    eq: "addDocumentsToSide newId now cid sd dd st = (Inr c', st(caseId c \<mapsto> c'))"
    and c': "c' = (if sd = ''A'' then c\<lparr>sideA := Some (new_side now dd)\<rparr>
                 else c\<lparr>sideB := Some (new_side now dd)\<rparr>)
                \<lparr>status := s, metadata := (metadata c)\<lparr>lastActivity := now\<rparr>, updatedAt := now\<rparr>"
    and us: "upload_status (if sd = ''A'' then c\<lparr>sideA := Some (new_side now dd)\<rparr>
                 else c\<lparr>sideB := Some (new_side now dd)\<rparr>) = Inr s" by blast
  from upload_status_cases[OF us] have s: "s \<in> set statuses" by blast
  have "case_ok c'" using cok m s unfolding c'
    by (simp add: case_ok_def arguments_or_empty_def documents_missing_def new_side_def)
  moreover have "caseId c' = cid" using k by (simp add: c')
  ultimately show ?thesis using assms k by (simp add: eq store_ok_upd)
qed

lemma setVerdict_ok:
  assumes "store_ok st" "truthy v"
  shows "store_ok (snd (setVerdict now cid v st))"
proof (cases "getCase st cid")
  case None
  then show ?thesis using assms by (simp add: setVerdict_def)
next
  case (Some c)
  then have k: "caseId c = cid" and cok: "case_ok c"
    using assms store_okD by (auto simp: getCase_def)
  have eq: "snd (setVerdict now cid v st) =
      st(cid \<mapsto> c\<lparr>verdict := v, status := ''verdict_rendered'',
                   metadata := (metadata c)\<lparr>lastActivity := now\<rparr>, updatedAt := now\<rparr>)"
    using Some k by (simp add: setVerdict_def saveCase_def Let_def)
  have "case_ok (c\<lparr>verdict := v, status := ''verdict_rendered'',
                   metadata := (metadata c)\<lparr>lastActivity := now\<rparr>, updatedAt := now\<rparr>)"
    using cok assms(2) by (simp add: case_ok_def arguments_or_empty_def statuses_def)
  then show ?thesis using assms(1) k by (simp add: eq store_ok_upd)
qed

lemma addArgument_ok:
  assumes "store_ok st" "getCase st cid = Some c" "truthy (verdict c)"
    "length (filter (\<lambda>x. side x = side a) (arguments_or_empty c)) < 5"
  shows "store_ok (snd (addArgument now rid cid a st))"
proof -
  have k: "caseId c = cid" and cok: "case_ok c"
    using assms store_okD by (auto simp: getCase_def)
  define c' where "c' = c\<lparr>arguments := Some (arguments_or_empty c @ [make_entry now rid a]),
      metadata := (metadata c)
        \<lparr> totalArguments := length (arguments_or_empty c @ [make_entry now rid a]),
          sideAArguments := length (filter (\<lambda>arg. side arg = ''A'')
             (arguments_or_empty c @ [make_entry now rid a])),
          sideBArguments := length (filter (\<lambda>arg. side arg = ''B'')
             (arguments_or_empty c @ [make_entry now rid a])),
          lastActivity := now \<rparr>,
      status := ''arguments_phase'', updatedAt := now\<rparr>"
  have eq: "snd (addArgument now rid cid a st) = st(cid \<mapsto> c')"
    using assms(2) k by (simp add: addArgument_def saveCase_def Let_def c'_def)
  have bound: "length (filter (\<lambda>x. side x = s)
       (arguments_or_empty c @ [make_entry now rid a])) \<le> 5" for s
  proof (cases "s = side a")
    case True
    then show ?thesis using assms(4) by (simp add: make_entry_def)
  next
    case False
    then have "side (make_entry now rid a) \<noteq> s" by (auto simp: make_entry_def)
    then show ?thesis using cok by (simp add: case_ok_def)
  qed
  have "case_ok c'"
    using cok assms(3) bound by (simp add: case_ok_def c'_def arguments_or_empty_def statuses_def)
  moreover have "caseId c' = cid" using k by (simp add: c'_def)
  ultimately show ?thesis using assms(1) by (simp add: eq store_ok_upd)
qed

lemma addDocumentsToSide_okD:
  "store_ok st \<Longrightarrow> addDocumentsToSide newId now cid sd dd st = (r, st') \<Longrightarrow> store_ok st'"
  using addDocumentsToSide_ok[of st newId now cid sd dd] by simp

lemma setVerdict_okD:
  "store_ok st \<Longrightarrow> truthy v \<Longrightarrow> setVerdict now cid v st = (r, st') \<Longrightarrow> store_ok st'"
  using setVerdict_ok[of st v now cid] by simp

lemma addArgument_okD:
  "store_ok st \<Longrightarrow> getCase st cid = Some c \<Longrightarrow> truthy (verdict c) \<Longrightarrow>
   \<not> 5 \<le> length (filter (\<lambda>x. side x = side a) (arguments_or_empty c)) \<Longrightarrow>
   addArgument now rid cid a st = (r, st') \<Longrightarrow> store_ok st'"
  using addArgument_ok[of st cid c a now rid] by simp

lemma createCase_okD:
  "store_ok st \<Longrightarrow> createCase newId now t d c ct st = (r, st') \<Longrightarrow> store_ok st'"
  using createCase_eq[of newId now t d c ct st] by (auto simp: store_ok_upd)

lemma upload_handler_ok:
  "store_ok st \<Longrightarrow> store_ok (snd (upload_handler L newId now sd cid descr files st))"
  by (auto simp: upload_handler_def Let_def split: option.splits prod.splits sum.splits
      dest: addDocumentsToSide_okD)

lemma blob_upload_handler_ok:
  "store_ok st \<Longrightarrow> store_ok (snd (blob_upload_handler L up newId now sd cid descr files st))"
  by (auto simp: blob_upload_handler_def Let_def split: option.splits prod.splits sum.splits
      dest: addDocumentsToSide_okD)

lemma create_handler_ok:
  "store_ok st \<Longrightarrow> store_ok (snd (create_handler newId now ttl descr ctry ctype st))"
  by (auto simp: create_handler_def Let_def split: option.splits prod.splits
      dest: createCase_okD)

lemma generateVerdict_truthy: "generateVerdict P reply now c = Inr v \<Longrightarrow> truthy v \<and> v \<noteq> JNull"
  by (auto simp: generateVerdict_def split: option.splits sum.splits)

lemma judge_handler_ok:
  "store_ok st \<Longrightarrow> store_ok (snd (judge_handler P reply now cid st))"
  by (auto simp: judge_handler_def Let_def split: option.splits prod.splits sum.splits
      dest!: generateVerdict_truthy dest: setVerdict_okD)

lemma argue_handler_ok:
  "store_ok st \<Longrightarrow> store_ok (snd (argue_handler P reply now rid cid sd arg st))"
  by (auto simp: argue_handler_def Let_def split: option.splits prod.splits sum.splits
      elim!: addArgument_okD[rotated -1])

lemma delete_handler_ok: "store_ok st \<Longrightarrow> store_ok (snd (delete_handler cid st))"
  by (auto simp: delete_handler_def deleteCase_def store_ok_del split: option.splits)

lemma serial_store_ok: "serial st \<Longrightarrow> store_ok st"
proof (induction rule: serial.induct)
  case start
  show ?case by (rule store_ok_empty)
next
  case (fetch st cid)
  then show ?case by (simp add: get_handler_def split: option.splits)
qed (simp_all add: upload_side_a_def upload_side_b_def blob_upload_side_a_def
      blob_upload_side_b_def upload_handler_ok blob_upload_handler_ok create_handler_ok
      judge_handler_ok argue_handler_ok delete_handler_ok)

subsection \<open>Overlapping requests\<close>

lemma judge_handler_split:
  "judge_handler JSON_parse reply now cid st =
     (case judge_check JSON_parse reply now cid st of
        Inl r \<Rightarrow> (r, st)
      | Inr v \<Rightarrow> judge_commit now cid v st)"
  by (simp add: judge_handler_def judge_check_def judge_commit_def
      split: option.splits sum.splits)

lemma argue_handler_split:
  "argue_handler JSON_parse reply now rid cid sd arg st =
     (case argue_check JSON_parse reply now cid sd arg st of
        Inl r \<Rightarrow> (r, st)
      | Inr a \<Rightarrow> argue_commit now rid cid a st)"
  by (simp add: argue_handler_def argue_check_def argue_commit_def Let_def
      split: option.splits sum.splits prod.splits)

lemma serial_reachable: "serial st \<Longrightarrow> reachable st []"
proof (induction rule: serial.induct)
  case start
  show ?case by (rule reachable.start)
next
  case (judge st JSON_parse reply now cid)
  show ?case
  proof (cases "judge_check JSON_parse reply now cid st")
    case (Inl r)
    then show ?thesis using judge.IH by (simp add: judge_handler_split)
  next
    case (Inr v)
    from reachable.judge_begin[OF judge.IH Inr]
    have "reachable st [PendingVerdict cid v]" .
    from reachable.judge_end[OF this, of cid v now]
    have "reachable (snd (judge_commit now cid v st)) []" by simp
    then show ?thesis using Inr by (simp add: judge_handler_split)
  qed
next
  case (argue st JSON_parse reply now rid cid sd arg)
  show ?case
  proof (cases "argue_check JSON_parse reply now cid sd arg st")
    case (Inl r)
    then show ?thesis using argue.IH by (simp add: argue_handler_split)
  next
    case (Inr a)
    from reachable.argue_begin[OF argue.IH Inr]
    have "reachable st [PendingArgument cid a]" .
    from reachable.argue_end[OF this, of cid a now rid]
    have "reachable (snd (argue_commit now rid cid a st)) []" by simp
    then show ?thesis using Inr by (simp add: argue_handler_split)
  qed
qed (auto intro: reachable.intros)

lemma statuses_ok_upd:
  "statuses_ok st \<Longrightarrow> status c \<in> set statuses \<Longrightarrow> statuses_ok (st(k \<mapsto> c))"
  by (simp add: statuses_ok_def)

lemma createCase_statuses:
  "statuses_ok st \<Longrightarrow> createCase newId now t d c ct st = (r, st') \<Longrightarrow> statuses_ok st'"
  using createCase_eq[of newId now t d c ct st]
  by (auto simp: statuses_def intro!: statuses_ok_upd)

lemma addDocumentsToSide_statuses:
  assumes "statuses_ok st" "addDocumentsToSide newId now cid sd dd st = (r, st')"
  shows "statuses_ok st'"
proof -
  obtain caseData st1 where
    cs: "(case getCase st cid of
               None \<Rightarrow>
                 (let (c, s1) = createCase newId now (''Case '' @ cid)
                                  ''Auto-created case from document upload''
                                  ''United States'' (Some ''civil'') st
                  in (c\<lparr>caseId := cid\<rparr>, s1))
             | Some c \<Rightarrow> (c, st)) = (caseData, st1)" by (cases "(case getCase st cid of
               None \<Rightarrow>
                 (let (c, s1) = createCase newId now (''Case '' @ cid)
                                  ''Auto-created case from document upload''
                                  ''United States'' (Some ''civil'') st
                  in (c\<lparr>caseId := cid\<rparr>, s1))
             | Some c \<Rightarrow> (c, st))") auto
  have ok1: "statuses_ok st1"
    using cs assms(1) createCase_statuses[of st newId now _ _ _ _ _ st1]
    by (auto split: option.splits prod.splits)
  show ?thesis
    using assms(2) ok1 upload_status_cases
    unfolding addDocumentsToSide_def cs
    by (auto simp: Let_def saveCase_def split: sum.splits intro!: statuses_ok_upd)
qed

lemma setVerdict_statuses:
  "statuses_ok st \<Longrightarrow> setVerdict now cid v st = (r, st') \<Longrightarrow> statuses_ok st'"
  by (auto simp: setVerdict_def saveCase_def Let_def statuses_def split: option.splits
      intro!: statuses_ok_upd)

lemma addArgument_statuses:
  "statuses_ok st \<Longrightarrow> addArgument now rid cid a st = (r, st') \<Longrightarrow> statuses_ok st'"
  by (auto simp: addArgument_def saveCase_def Let_def statuses_def split: option.splits
      intro!: statuses_ok_upd)

lemma deleteCase_statuses:
  "statuses_ok st \<Longrightarrow> deleteCase cid st = (r, st') \<Longrightarrow> statuses_ok st'"
  by (auto simp: deleteCase_def statuses_ok_def split: option.splits if_splits)

lemma upload_handler_statuses:
  "statuses_ok st \<Longrightarrow> statuses_ok (snd (upload_handler L newId now sd cid descr files st))"
  by (auto simp: upload_handler_def Let_def split: option.splits prod.splits sum.splits
      dest: addDocumentsToSide_statuses)

lemma blob_upload_handler_statuses:
  "statuses_ok st \<Longrightarrow>
   statuses_ok (snd (blob_upload_handler L up newId now sd cid descr files st))"
  by (auto simp: blob_upload_handler_def Let_def split: option.splits prod.splits sum.splits
      dest: addDocumentsToSide_statuses)

lemma create_handler_statuses:
  "statuses_ok st \<Longrightarrow> statuses_ok (snd (create_handler newId now ttl descr ctry ctype st))"
  by (auto simp: create_handler_def Let_def split: option.splits prod.splits
      dest: createCase_statuses)

lemma judge_commit_statuses:
  "statuses_ok st \<Longrightarrow> statuses_ok (snd (judge_commit now cid v st))"
  by (auto simp: judge_commit_def split: prod.splits sum.splits dest: setVerdict_statuses)

lemma argue_commit_statuses:
  "statuses_ok st \<Longrightarrow> statuses_ok (snd (argue_commit now rid cid a st))"
  by (auto simp: argue_commit_def split: prod.splits sum.splits dest: addArgument_statuses)

lemma delete_handler_statuses:
  "statuses_ok st \<Longrightarrow> statuses_ok (snd (delete_handler cid st))"
  by (auto simp: delete_handler_def split: prod.splits bool.splits dest: deleteCase_statuses)

lemma reachable_statuses_ok: "reachable st ps \<Longrightarrow> statuses_ok st"
proof (induction rule: reachable.induct)
  case start
  show ?case by (simp add: statuses_ok_def)
next
  case (fetch st ps cid)
  then show ?case by (simp add: get_handler_def split: option.splits)
qed (simp_all add: upload_side_a_def upload_side_b_def blob_upload_side_a_def
      blob_upload_side_b_def upload_handler_statuses blob_upload_handler_statuses
      create_handler_statuses judge_commit_statuses argue_commit_statuses
      delete_handler_statuses)

subsection \<open>The example runs\<close>

lemma created_store_eq:
  "created_store =
     [''c1'' \<mapsto> \<lparr> caseId = ''c1'', title = ''T'', description = ''D'', country = ''US'',
         caseType = ''civil'', status = ''created'', createdAt = ''t0'', updatedAt = ''t0'',
         sideA = Some empty_side, sideB = Some empty_side, verdict = JNull,
         arguments = Some [],
         metadata = \<lparr> totalArguments = 0, sideAArguments = 0, sideBArguments = 0,
                      lastActivity = ''t0'' \<rparr> \<rparr>]"
  by (simp add: created_store_def create_handler_def createCase_def saveCase_def Let_def
      js_or_def empty_side_def)

lemma judged_store_eq:
  "judged_store =
     [''c1'' \<mapsto> \<lparr> caseId = ''c1'', title = ''T'', description = ''D'', country = ''US'',
         caseType = ''civil'', status = ''verdict_rendered'', createdAt = ''t0'',
         updatedAt = ''t1'',
         sideA = Some empty_side, sideB = Some empty_side,
         verdict = JObj (verdict_fallback [111, 107] @
             [(''timestamp'', JStr (lit ''t1'')), (''caseId'', JStr (lit ''c1'')),
              (''country'', JStr (lit ''US'')), (''caseType'', JStr (lit ''civil''))]),
         arguments = Some [],
         metadata = \<lparr> totalArguments = 0, sideAArguments = 0, sideBArguments = 0,
                      lastActivity = ''t1'' \<rparr> \<rparr>]"
  by (simp add: judged_store_def created_store_eq judge_handler_def getCase_def
      documents_missing_def empty_side_def generateVerdict_def parseVerdictResponse_def
      json_match_def verdict_fallback_def set_prop_def setVerdict_def saveCase_def Let_def)

lemma argue_a_step:
  assumes "st ''c1'' = Some c" "caseId c = ''c1''" "truthy (verdict c)"
    "length (filter (\<lambda>a. side a = ''A'') (arguments_or_empty c)) < 5"
  shows "\<exists>c' e. argue_a rid st ''c1'' = Some c' \<and> caseId c' = ''c1'' \<and> verdict c' = verdict c \<and>
           side e = ''A'' \<and> arguments_or_empty c' = arguments_or_empty c @ [e] \<and>
           status c' = ''arguments_phase''"
  using assms
  by (simp add: argue_a_def argue_handler_def getCase_def Let_def respondToArgument_def
      addArgument_def saveCase_def make_entry_def arguments_or_empty_def)

lemma argued_store_case:
  "\<exists>c. argued_store ''c1'' = Some c \<and> caseId c = ''c1'' \<and> truthy (verdict c) \<and>
       length (arguments_or_empty c) = 1 \<and>
       length (filter (\<lambda>a. side a = ''A'') (arguments_or_empty c)) = 1 \<and>
       status c = ''arguments_phase''"
proof -
  have "\<exists>c. judged_store ''c1'' = Some c \<and> caseId c = ''c1'' \<and> truthy (verdict c) \<and>
          arguments_or_empty c = []"
    by (simp add: judged_store_eq arguments_or_empty_def)
  then obtain c where c: "judged_store ''c1'' = Some c" "caseId c = ''c1''" "truthy (verdict c)"
    "arguments_or_empty c = []" by blast
  from argue_a_step[of judged_store c "''r1''"] c show ?thesis
    by (auto simp: argued_store_def)
qed

lemma full_store_case:
  "\<exists>c. full_store ''c1'' = Some c \<and> caseId c = ''c1'' \<and> truthy (verdict c) \<and>
       length (filter (\<lambda>a. side a = ''A'') (arguments_or_empty c)) = 5"
proof -
  define holds where "holds st n \<longleftrightarrow>
    (\<exists>c. st ''c1'' = Some c \<and> caseId c = ''c1'' \<and> truthy (verdict c) \<and>
       length (filter (\<lambda>a. side a = ''A'') (arguments_or_empty c)) = n)" for st :: store and n
  have step: "holds (argue_a rid st) (Suc n)" if "holds st n" "n < 5" for st rid n
  proof -
    from that obtain c where c: "st ''c1'' = Some c" "caseId c = ''c1''" "truthy (verdict c)"
      "length (filter (\<lambda>a. side a = ''A'') (arguments_or_empty c)) = n"
      unfolding holds_def by blast
    from argue_a_step[of st c rid] c that(2) show ?thesis unfolding holds_def by auto
  qed
  have "holds argued_store (Suc 0)"
    using argued_store_case unfolding holds_def by auto
  then have "holds (argue_a ''r2'' argued_store) (Suc (Suc 0))"
    by (rule step) simp
  then have "holds (argue_a ''r3'' (argue_a ''r2'' argued_store)) (Suc (Suc (Suc 0)))"
    by (rule step) simp
  then have "holds (argue_a ''r4'' (argue_a ''r3'' (argue_a ''r2'' argued_store)))
      (Suc (Suc (Suc (Suc 0))))"
    by (rule step) simp
  then have "holds full_store (Suc (Suc (Suc (Suc (Suc 0)))))"
    unfolding full_store_def by (rule step) simp
  then show ?thesis unfolding holds_def by (simp add: eval_nat_numeral)
qed

lemma serial_created: "serial created_store"
  unfolding created_store_def by (intro serial.create serial.start)

lemma serial_judged: "serial judged_store"
  unfolding judged_store_def by (intro serial.judge serial_created)

lemma serial_argue_a: "serial st \<Longrightarrow> serial (argue_a rid st)"
  unfolding argue_a_def by (rule serial.argue)

lemma serial_argued: "serial argued_store"
  unfolding argued_store_def by (intro serial_argue_a serial_judged)

lemma serial_full: "serial full_store"
  unfolding full_store_def by (intro serial_argue_a serial_argued)

lemma serial_uploaded: "serial uploaded_store"
  unfolding uploaded_store_def by (intro serial.upload_b serial_created)

lemma argue_a_count:
  assumes "st ''c1'' = Some c" "caseId c = ''c1''" "truthy (verdict c)"
    "length (filter (\<lambda>a. side a = ''A'') (arguments_or_empty c)) = n" "n < 5"
  shows "\<exists>c'. argue_a rid st ''c1'' = Some c' \<and> caseId c' = ''c1'' \<and> truthy (verdict c') \<and>
           length (filter (\<lambda>a. side a = ''A'') (arguments_or_empty c')) = Suc n"
  using argue_a_step[of st c rid] assms by auto

lemma four_store_case:
  "\<exists>c. four_store ''c1'' = Some c \<and> caseId c = ''c1'' \<and> truthy (verdict c) \<and>
       length (filter (\<lambda>a. side a = ''A'') (arguments_or_empty c)) = 4"
proof -
  obtain c1 where c1: "argued_store ''c1'' = Some c1" "caseId c1 = ''c1''" "truthy (verdict c1)"
    "length (filter (\<lambda>a. side a = ''A'') (arguments_or_empty c1)) = 1"
    using argued_store_case by blast
  obtain c2 where c2: "argue_a ''r2'' argued_store ''c1'' = Some c2" "caseId c2 = ''c1''"
    "truthy (verdict c2)"
    "length (filter (\<lambda>a. side a = ''A'') (arguments_or_empty c2)) = Suc 1"
    using argue_a_count[of argued_store c1 1 "''r2''"] c1 by auto
  obtain c3 where c3: "argue_a ''r3'' (argue_a ''r2'' argued_store) ''c1'' = Some c3"
    "caseId c3 = ''c1''" "truthy (verdict c3)"
    "length (filter (\<lambda>a. side a = ''A'') (arguments_or_empty c3)) = Suc (Suc 1)"
    using argue_a_count[of "argue_a ''r2'' argued_store" c2 "Suc 1" "''r3''"] c2 by auto
  obtain c4 where c4: "four_store ''c1'' = Some c4"
    "caseId c4 = ''c1''" "truthy (verdict c4)"
    "length (filter (\<lambda>a. side a = ''A'') (arguments_or_empty c4)) = Suc (Suc (Suc 1))"
    using argue_a_count[of "argue_a ''r3'' (argue_a ''r2'' argued_store)" c3 "Suc (Suc 1)" "''r4''"]
      c3 unfolding four_store_def by auto
  show ?thesis using c4 by (auto simp: eval_nat_numeral)
qed

lemma serial_four: "serial four_store"
  unfolding four_store_def by (intro serial_argue_a serial_argued)

lemma argue_check_pass:
  assumes "st cid = Some c" "truthy (verdict c)"
    "length (filter (\<lambda>a. side a = ''A'') (arguments_or_empty c)) = n" "n < 5"
  shows "argue_check (\<lambda>s. None) (Some (Inr [111, 107])) ''t2'' cid (Some ''A'') (Some ''x'') st =
           Inr \<lparr> side = ''A'', argument = ''x'', aiResponse = provider_answer,
                 timestamp = Some ''t2'', argumentNumber = n + 1 \<rparr>"
  using assms
  by (simp add: argue_check_def getCase_def respondToArgument_def parseArgumentResponse_def
      json_match_def provider_answer_def Let_def)

lemma argue_commit_appends:
  assumes "st cid = Some c" "caseId c = cid"
  shows "\<exists>c'. snd (argue_commit now rid cid a st) cid = Some c' \<and> caseId c' = cid \<and>
           verdict c' = verdict c \<and>
           arguments_or_empty c' = arguments_or_empty c @ [make_entry now rid a]"
  using assms
  by (simp add: argue_commit_def addArgument_def getCase_def saveCase_def Let_def
      arguments_or_empty_def)

lemma four_check:
  "argue_check (\<lambda>s. None) (Some (Inr [111, 107])) ''t2'' ''c1'' (Some ''A'') (Some ''x'')
     four_store = Inr fifth_argument"
proof -
  obtain c where c: "four_store ''c1'' = Some c" "truthy (verdict c)"
    "length (filter (\<lambda>a. side a = ''A'') (arguments_or_empty c)) = 4"
    using four_store_case by blast
  from argue_check_pass[of four_store "''c1''" c 4] c show ?thesis
    by (simp add: fifth_argument_def)
qed

lemma overlapped_count:
  "map_option (\<lambda>c. length (filter (\<lambda>a. side a = ''A'') (arguments_or_empty c)))
     (overlapped_store ''c1'') = Some 6"
proof -
  let ?s5 = "snd (argue_commit ''t3'' ''r5'' ''c1'' fifth_argument four_store)"
  obtain c where c: "four_store ''c1'' = Some c" "caseId c = ''c1''"
    "length (filter (\<lambda>a. side a = ''A'') (arguments_or_empty c)) = 4"
    using four_store_case by blast
  from argue_commit_appends[of four_store "''c1''" c "''t3''" "''r5''" fifth_argument] c(1,2)
  obtain c5 where c5: "?s5 ''c1'' = Some c5" "caseId c5 = ''c1''"
    "arguments_or_empty c5 = arguments_or_empty c @ [make_entry ''t3'' ''r5'' fifth_argument]"
    by blast
  from argue_commit_appends[of ?s5 "''c1''" c5 "''t4''" "''r6''" fifth_argument] c5(1,2)
  obtain c6 where c6: "overlapped_store ''c1'' = Some c6"
    "arguments_or_empty c6 = arguments_or_empty c5 @ [make_entry ''t4'' ''r6'' fifth_argument]"
    unfolding overlapped_store_def by blast
  have "length (filter (\<lambda>a. side a = ''A'') (arguments_or_empty c6)) = 6"
    using c(3) by (simp add: c6(2) c5(3) make_entry_def fifth_argument_def)
  then show ?thesis by (simp add: c6(1))
qed

lemma reachable_overlapped: "reachable overlapped_store []"
proof -
  let ?p = "PendingArgument ''c1'' fifth_argument"
  have r0: "reachable four_store []" by (rule serial_reachable[OF serial_four])
  from reachable.argue_begin[OF r0 four_check] have r1: "reachable four_store [?p]" .
  from reachable.argue_begin[OF r1 four_check] have r2: "reachable four_store [?p, ?p]" .
  from reachable.argue_end[OF r2, of "''c1''" fifth_argument "''t3''" "''r5''"]
  have r3: "reachable (snd (argue_commit ''t3'' ''r5'' ''c1'' fifth_argument four_store)) [?p]"
    by simp
  from reachable.argue_end[OF r3, of "''c1''" fifth_argument "''t4''" "''r6''"]
  show ?thesis unfolding overlapped_store_def by simp
qed

lemma judged_check:
  "argue_check (\<lambda>s. None) (Some (Inr [111, 107])) ''t2'' ''c1'' (Some ''A'') (Some ''x'')
     judged_store = Inr first_argument"
proof -
  have "\<exists>c. judged_store ''c1'' = Some c \<and> truthy (verdict c) \<and>
          length (filter (\<lambda>a. side a = ''A'') (arguments_or_empty c)) = 0"
    by (simp add: judged_store_eq arguments_or_empty_def)
  then obtain c where c: "judged_store ''c1'' = Some c" "truthy (verdict c)"
    "length (filter (\<lambda>a. side a = ''A'') (arguments_or_empty c)) = 0" by blast
  from argue_check_pass[of judged_store "''c1''" c 0] c show ?thesis
    by (simp add: first_argument_def)
qed

lemma recreated_case:
  "map_option verdict (recreated_store ''c1'') = Some JNull \<and>
   map_option (\<lambda>c. length (arguments_or_empty c)) (recreated_store ''c1'') = Some 1"
  by (simp add: recreated_store_def judged_store_eq delete_handler_def deleteCase_def
      upload_side_a_def upload_handler_def text_file_def
      text_libs_def parseDocument_def parseText_def rethrow_def no_text_def trim_def
      is_space_def cleanExtractedText_def addDocumentsToSide_def getCase_def
      createCase_def js_or_def
      upload_status_def documents_length_def saveCase_def Let_def
      argue_commit_def addArgument_def arguments_or_empty_def)

lemma reachable_recreated: "reachable recreated_store []"
proof -
  let ?p = "PendingArgument ''c1'' first_argument"
  have r0: "reachable judged_store []" by (rule serial_reachable[OF serial_judged])
  from reachable.argue_begin[OF r0 judged_check] have r1: "reachable judged_store [?p]" .
  from reachable.delete[OF r1, of "''c1''"]
  have r2: "reachable (snd (delete_handler ''c1'' judged_store)) [?p]" .
  from reachable.upload_a[OF r2, of text_libs "''n2''" "''t3''" "''c1''" None "Some [text_file]"]
  have r3: "reachable (snd (upload_side_a text_libs ''n2'' ''t3'' ''c1'' None (Some [text_file])
                   (snd (delete_handler ''c1'' judged_store)))) [?p]" .
  from reachable.argue_end[OF r3, of "''c1''" first_argument "''t4''" "''r1''"]
  show ?thesis unfolding recreated_store_def by simp
qed

lemma uploaded_store_case:
  "\<exists>c. getCase uploaded_store ''c1'' = Some c \<and> caseId c = ''c1'' \<and> has_documents (sideB c) \<and>
       \<not> documents_missing (sideA c) \<and> status c = ''awaiting_documents''"
  by (simp add: uploaded_store_def upload_side_b_def upload_handler_def text_file_def
      text_libs_def parseDocument_def parseText_def rethrow_def no_text_def trim_def
      is_space_def cleanExtractedText_def created_store_eq addDocumentsToSide_def getCase_def
      upload_status_def documents_length_def empty_side_def saveCase_def Let_def
      has_documents_def documents_missing_def)

subsection \<open>The verdict request\<close>

text \<open>
  C1. The claim: the verdict handler goes on to generate and store a verdict only when
  both sides hold a non-empty document list, and answers 400 otherwise. The handler's
  guard is \<open>!caseData.sideA?.documents || !caseData.sideB?.documents\<close>, which an empty
  array passes. On the case that \<open>createCase\<close> has just written, both lists empty, the
  handler answers 200 and stores a verdict.
\<close>

theorem judge_accepts_empty_document_lists:
  "(\<exists>c. getCase created_store ''c1'' = Some c \<and>
        sideA c = Some empty_side \<and> sideB c = Some empty_side \<and>
        documents empty_side = Some [] \<and>
        \<not> has_documents (sideA c) \<and> \<not> has_documents (sideB c)) \<and>
   fst (judge_handler (\<lambda>s. None) (Some (Inr [111, 107])) ''t1'' ''c1'' created_store) =
     (200, JudgeBody ''AI Judge has rendered a verdict'' ''c1''
        (JObj (verdict_fallback [111, 107] @
           [(''timestamp'', JStr (lit ''t1'')), (''caseId'', JStr (lit ''c1'')),
            (''country'', JStr (lit ''US'')), (''caseType'', JStr (lit ''civil''))]))) \<and>
   (\<exists>c. snd (judge_handler (\<lambda>s. None) (Some (Inr [111, 107])) ''t1'' ''c1'' created_store)
          ''c1'' = Some c \<and>
        status c = ''verdict_rendered'' \<and> verdict c \<noteq> JNull)"
proof (intro conjI)
  show "\<exists>c. getCase created_store ''c1'' = Some c \<and>
        sideA c = Some empty_side \<and> sideB c = Some empty_side \<and>
        documents empty_side = Some [] \<and>
        \<not> has_documents (sideA c) \<and> \<not> has_documents (sideB c)"
    by (simp add: created_store_eq getCase_def empty_side_def has_documents_def)
  show "fst (judge_handler (\<lambda>s. None) (Some (Inr [111, 107])) ''t1'' ''c1'' created_store) =
     (200, JudgeBody ''AI Judge has rendered a verdict'' ''c1''
        (JObj (verdict_fallback [111, 107] @
           [(''timestamp'', JStr (lit ''t1'')), (''caseId'', JStr (lit ''c1'')),
            (''country'', JStr (lit ''US'')), (''caseType'', JStr (lit ''civil''))])))"
    by (simp add: created_store_eq judge_handler_def getCase_def
      documents_missing_def empty_side_def generateVerdict_def parseVerdictResponse_def
      json_match_def verdict_fallback_def set_prop_def setVerdict_def saveCase_def Let_def)
  show "\<exists>c. snd (judge_handler (\<lambda>s. None) (Some (Inr [111, 107])) ''t1'' ''c1'' created_store)
          ''c1'' = Some c \<and>
        status c = ''verdict_rendered'' \<and> verdict c \<noteq> JNull"
    using judged_store_eq by (simp add: judged_store_def)
qed

subsection \<open>The argument rounds\<close>

text \<open>
  C2. When the case already holds five (or more) arguments of side \<open>s\<close>, \<open>s\<close> being A or
  B, the argue request is refused at the check that precedes the provider call: the
  handler answers 400 whatever else the request holds, and leaves the store as it was.
  With requests handled one at a time, no store holds a case with more than five
  arguments of one side.
\<close>

theorem argue_limit:
  "(getCase st cid = Some c \<and> (s = ''A'' \<or> s = ''B'') \<and>
      5 \<le> length (filter (\<lambda>a. side a = s) (arguments_or_empty c)) \<longrightarrow>
      (\<exists>r. argue_check JSON_parse reply now cid (Some s) arg st = Inl r \<and> fst r = 400) \<and>
      fst (fst (argue_handler JSON_parse reply now rid cid (Some s) arg st)) = 400 \<and>
      snd (argue_handler JSON_parse reply now rid cid (Some s) arg st) = st) \<and>
   (serial st' \<and> st' cid' = Some c' \<longrightarrow>
      length (filter (\<lambda>a. side a = s') (arguments_or_empty c')) \<le> 5)"
proof (intro conjI impI)
  assume h: "getCase st cid = Some c \<and> (s = ''A'' \<or> s = ''B'') \<and>
      5 \<le> length (filter (\<lambda>a. side a = s) (arguments_or_empty c))"
  then show "\<exists>r. argue_check JSON_parse reply now cid (Some s) arg st = Inl r \<and> fst r = 400"
    by (auto simp: argue_check_def Let_def split: option.splits)
  from h show "fst (fst (argue_handler JSON_parse reply now rid cid (Some s) arg st)) = 400"
    by (auto simp: argue_handler_def Let_def split: option.splits)
  from h show "snd (argue_handler JSON_parse reply now rid cid (Some s) arg st) = st"
    by (auto simp: argue_handler_def Let_def split: option.splits)
next
  assume "serial st' \<and> st' cid' = Some c'"
  then show "length (filter (\<lambda>a. side a = s') (arguments_or_empty c')) \<le> 5"
    using serial_store_ok[of st'] store_okD[of st' cid' c'] by (simp add: case_ok_def)
qed

theorem argue_limit_witness:
  "serial full_store \<and>
   (\<exists>c. getCase full_store ''c1'' = Some c \<and>
        5 \<le> length (filter (\<lambda>a. side a = ''A'') (arguments_or_empty c)) \<and>
        length (filter (\<lambda>a. side a = ''A'') (arguments_or_empty c)) \<le> 5) \<and>
   (\<exists>r. argue_check (\<lambda>s. None) (Some (Inr [111, 107])) ''t3'' ''c1'' (Some ''A'') (Some ''y'')
          full_store = Inl r \<and> fst r = 400) \<and>
   fst (fst (argue_handler (\<lambda>s. None) (Some (Inr [111, 107])) ''t3'' ''r6'' ''c1''
          (Some ''A'') (Some ''y'') full_store)) = 400 \<and>
   snd (argue_handler (\<lambda>s. None) (Some (Inr [111, 107])) ''t3'' ''r6'' ''c1''
          (Some ''A'') (Some ''y'') full_store) = full_store"
proof -
  obtain c where c: "full_store ''c1'' = Some c"
    "length (filter (\<lambda>a. side a = ''A'') (arguments_or_empty c)) = 5"
    using full_store_case by blast
  have g: "getCase full_store ''c1'' = Some c" by (simp add: getCase_def c(1))
  note t = argue_limit[where st = full_store and cid = "''c1''" and c = c and s = "''A''"
      and JSON_parse = "\<lambda>s. None" and reply = "Some (Inr [111, 107])" and now = "''t3''"
      and rid = "''r6''" and arg = "Some ''y''" and st' = full_store and cid' = "''c1''"
      and c' = c and s' = "''A''"]
  have h: "getCase full_store ''c1'' = Some c \<and> (''A'' = ''A'' \<or> ''A'' = ''B'') \<and>
      5 \<le> length (filter (\<lambda>a. side a = ''A'') (arguments_or_empty c))"
    using g c(2) by simp
  note a = mp[OF t[THEN conjunct1] h]
  have "serial full_store \<and> full_store ''c1'' = Some c" using serial_full c(1) by simp
  note b = mp[OF t[THEN conjunct2] this]
  have e: "\<exists>c. getCase full_store ''c1'' = Some c \<and>
        5 \<le> length (filter (\<lambda>a. side a = ''A'') (arguments_or_empty c)) \<and>
        length (filter (\<lambda>a. side a = ''A'') (arguments_or_empty c)) \<le> 5"
    using g c(2) b by auto
  show ?thesis
    using serial_full e a[THEN conjunct1] a[THEN conjunct2, THEN conjunct1]
      a[THEN conjunct2, THEN conjunct2]
    by (intro conjI)
qed

text \<open>
  Without that proviso the bound fails. The limit is tested on the record read before the
  provider call, and \<open>addArgument\<close>, run after the call, reads the record again and
  appends with no test. A case holds four arguments of side A, all accepted one request
  at a time. Two further requests for side A each pass the check while the other waits
  for the provider; each then appends, and the case holds six arguments of side A.
\<close>

theorem argue_limit_counterexample:
  "serial four_store \<and>
   map_option (\<lambda>c. length (filter (\<lambda>a. side a = ''A'') (arguments_or_empty c)))
     (four_store ''c1'') = Some 4 \<and>
   argue_check (\<lambda>s. None) (Some (Inr [111, 107])) ''t2'' ''c1'' (Some ''A'') (Some ''x'')
     four_store = Inr fifth_argument \<and>
   reachable overlapped_store [] \<and>
   map_option (\<lambda>c. length (filter (\<lambda>a. side a = ''A'') (arguments_or_empty c)))
     (overlapped_store ''c1'') = Some 6"
proof -
  have "map_option (\<lambda>c. length (filter (\<lambda>a. side a = ''A'') (arguments_or_empty c)))
     (four_store ''c1'') = Some 4"
    using four_store_case by auto
  then show ?thesis
    using serial_four four_check reachable_overlapped overlapped_count by (intro conjI)
qed

text \<open>
  C3. With requests handled one at a time, a case with a non-empty arguments list has a
  verdict that is not null (and is truthy). The argue request is refused at the check
  that precedes the provider call whenever the case it reads has no verdict: the handler
  answers 400 and leaves the store as it was.
\<close>

theorem arguments_follow_verdict:
  "(serial st \<and> st cid = Some c \<and> arguments_or_empty c \<noteq> [] \<longrightarrow>
      verdict c \<noteq> JNull \<and> truthy (verdict c)) \<and>
   (getCase st' cid' = Some c' \<and> \<not> truthy (verdict c') \<longrightarrow>
      (\<exists>r. argue_check JSON_parse reply now cid' sd arg st' = Inl r \<and> fst r = 400) \<and>
      fst (fst (argue_handler JSON_parse reply now rid cid' sd arg st')) = 400 \<and>
      snd (argue_handler JSON_parse reply now rid cid' sd arg st') = st')"
proof (intro conjI impI)
  assume "serial st \<and> st cid = Some c \<and> arguments_or_empty c \<noteq> []"
  then have "truthy (verdict c)"
    using serial_store_ok[of st] store_okD[of st cid c] by (simp add: case_ok_def)
  then show "verdict c \<noteq> JNull" "truthy (verdict c)" by auto
next
  assume h: "getCase st' cid' = Some c' \<and> \<not> truthy (verdict c')"
  then show "\<exists>r. argue_check JSON_parse reply now cid' sd arg st' = Inl r \<and> fst r = 400"
    by (auto simp: argue_check_def Let_def split: option.splits)
  from h show "fst (fst (argue_handler JSON_parse reply now rid cid' sd arg st')) = 400"
    by (auto simp: argue_handler_def Let_def split: option.splits)
  from h show "snd (argue_handler JSON_parse reply now rid cid' sd arg st') = st'"
    by (auto simp: argue_handler_def Let_def split: option.splits)
qed

theorem arguments_follow_verdict_witness:
  "serial argued_store \<and>
   (\<exists>c. argued_store ''c1'' = Some c \<and> arguments_or_empty c \<noteq> [] \<and>
        verdict c \<noteq> JNull \<and> truthy (verdict c)) \<and>
   (\<exists>c. getCase created_store ''c1'' = Some c \<and> \<not> truthy (verdict c)) \<and>
   (\<exists>r. argue_check (\<lambda>s. None) (Some (Inr [111, 107])) ''t2'' ''c1'' (Some ''A'') (Some ''x'')
          created_store = Inl r \<and> fst r = 400) \<and>
   fst (fst (argue_handler (\<lambda>s. None) (Some (Inr [111, 107])) ''t2'' ''r1'' ''c1''
          (Some ''A'') (Some ''x'') created_store)) = 400 \<and>
   snd (argue_handler (\<lambda>s. None) (Some (Inr [111, 107])) ''t2'' ''r1'' ''c1''
          (Some ''A'') (Some ''x'') created_store) = created_store"
proof -
  obtain c where c: "argued_store ''c1'' = Some c" "length (arguments_or_empty c) = 1"
    using argued_store_case by blast
  then have ne: "arguments_or_empty c \<noteq> []" by auto
  obtain c0 where c0: "getCase created_store ''c1'' = Some c0" "\<not> truthy (verdict c0)"
    by (simp add: created_store_eq getCase_def)
  note t = arguments_follow_verdict[where st = argued_store and cid = "''c1''" and c = c
      and st' = created_store and cid' = "''c1''" and c' = c0
      and JSON_parse = "\<lambda>s. None" and reply = "Some (Inr [111, 107])" and now = "''t2''"
      and rid = "''r1''" and sd = "Some ''A''" and arg = "Some ''x''"]
  have h1: "serial argued_store \<and> argued_store ''c1'' = Some c \<and> arguments_or_empty c \<noteq> []"
    using serial_argued c(1) ne by simp
  note v = mp[OF t[THEN conjunct1] h1]
  have h2: "getCase created_store ''c1'' = Some c0 \<and> \<not> truthy (verdict c0)"
    using c0 by simp
  note a = mp[OF t[THEN conjunct2] h2]
  have e1: "\<exists>c. argued_store ''c1'' = Some c \<and> arguments_or_empty c \<noteq> [] \<and>
        verdict c \<noteq> JNull \<and> truthy (verdict c)"
    using c(1) ne v by blast
  have e2: "\<exists>c. getCase created_store ''c1'' = Some c \<and> \<not> truthy (verdict c)"
    using c0 by blast
  show ?thesis
    using serial_argued e1 e2 a[THEN conjunct1] a[THEN conjunct2, THEN conjunct1]
      a[THEN conjunct2, THEN conjunct2]
    by (intro conjI)
qed

text \<open>
  Without that proviso the order fails. The verdict is tested on the record read before
  the provider call, and \<open>addArgument\<close> tests nothing. An argue request passes the check
  on a case with a verdict; while it waits for the provider the case is deleted and an
  upload for the same id creates it again, with verdict null; the argument is then
  appended to the new record.
\<close>

theorem arguments_follow_verdict_counterexample:
  "argue_check (\<lambda>s. None) (Some (Inr [111, 107])) ''t2'' ''c1'' (Some ''A'') (Some ''x'')
     judged_store = Inr first_argument \<and>
   reachable recreated_store [] \<and>
   map_option (\<lambda>c. length (arguments_or_empty c)) (recreated_store ''c1'') = Some 1 \<and>
   map_option verdict (recreated_store ''c1'') = Some JNull"
  using judged_check reachable_recreated recreated_case by (intro conjI) simp_all

subsection \<open>The case service on a platform\<close>

lemma getCase_fs_error:
  "getCase_fs P st cid = Inl e \<Longrightarrow> e \<noteq> Error ''Case not found''"
  by (auto simp: getCase_fs_def split: target.splits)

lemma saveCase_fs_error:
  "saveCase_fs P now c st = Inl e \<Longrightarrow> e \<noteq> Error ''Case not found''"
  by (auto simp: saveCase_fs_def Let_def split: target.splits)

lemma upload_status_error:
  "upload_status c = Inl e \<Longrightarrow> e \<noteq> Error ''Case not found''"
  by (auto simp: upload_status_def documents_length_def
      split: sum.splits option.splits if_splits)

lemma addDocumentsToSide_fs_not_found:
  "fst (addDocumentsToSide_fs P newId now cid sd dd st) \<noteq> Inl (Error ''Case not found'')"
  unfolding addDocumentsToSide_fs_def createCase_fs_def Let_def
  by (auto split: sum.splits option.splits prod.splits
      dest: getCase_fs_error saveCase_fs_error upload_status_error)

lemma addDocumentsToSide_fs_new:
  assumes "\<forall>s. P s cid = File k" "\<forall>s. P s newId = File kn" "getCase_fs P st cid = Inr None"
  shows "\<exists>c'. fst (addDocumentsToSide_fs P newId now cid sd dd st) = Inr c' \<and>
           snd (addDocumentsToSide_fs P newId now cid sd dd st) k = Some c' \<and>
           getCase_fs P (snd (addDocumentsToSide_fs P newId now cid sd dd st)) cid =
             Inr (Some c') \<and>
           caseId c' = cid \<and> title c' = ''Case '' @ cid \<and> country c' = ''United States'' \<and>
           caseType c' = ''civil'' \<and>
           (sd = ''A'' \<longrightarrow> sideA c' = Some (new_side now dd)) \<and>
           (sd \<noteq> ''A'' \<longrightarrow> sideB c' = Some (new_side now dd))"
  using assms
  by (simp add: addDocumentsToSide_fs_def getCase_fs_def createCase_fs_def saveCase_fs_def
      Let_def upload_status_def documents_length_def js_or_def new_side_def)

lemma addDocumentsToSide_fs_existing:
  assumes "getCase_fs P st cid = Inr (Some c)" "caseId c = cid"
    "fst (addDocumentsToSide_fs P newId now cid sd dd st) = Inr c'"
  shows "(\<exists>k. P st cid = File k \<and>
              snd (addDocumentsToSide_fs P newId now cid sd dd st) = st(k \<mapsto> c')) \<and>
         caseId c' = cid \<and>
         (sd = ''A'' \<longrightarrow> sideA c' = Some (new_side now dd)) \<and>
         (sd \<noteq> ''A'' \<longrightarrow> sideB c' = Some (new_side now dd))"
  using assms
  by (auto simp: addDocumentsToSide_fs_def getCase_fs_def saveCase_fs_def
      Let_def new_side_def
      split: target.splits sum.splits prod.splits if_splits)

lemma addDocumentsToSide_fs_plain:
  "addDocumentsToSide_fs (\<lambda>s i. File i) newId now cid sd dd st =
     addDocumentsToSide newId now cid sd dd st"
  by (simp add: addDocumentsToSide_fs_def addDocumentsToSide_def getCase_fs_def getCase_def
      createCase_fs_def createCase_def saveCase_fs_def saveCase_def Let_def
      split: option.splits sum.splits)

lemma addDocumentsToSide_fs_new_status:
  assumes "\<forall>s. P s cid = File k" "\<forall>s. P s newId = File kn" "getCase_fs P st cid = Inr None"
  shows "\<exists>c'. fst (addDocumentsToSide_fs P newId now cid sd dd st) = Inr c' \<and>
           status c' = ''awaiting_documents'' \<and>
           snd (addDocumentsToSide_fs P newId now cid sd dd st) k = Some c'"
  using assms
  by (simp add: addDocumentsToSide_fs_def getCase_fs_def createCase_fs_def saveCase_fs_def
      Let_def upload_status_def documents_length_def js_or_def)

lemma posix_plain:
  "posix s ''c9'' = File ''c9''" "posix s ''n9'' = File ''n9''" "posix s ''c1'' = File ''c1''"
  "posix s ''x/../c1'' = File ''c1''"
  by (simp_all add: posix_def joined_def join_step_def strip_json_def Let_def)

lemma posix_subdirectory: "posix Map.empty ''a/b'' = NoEntry"
  by (simp add: posix_def joined_def join_step_def strip_json_def Let_def)

subsection \<open>Status values\<close>

lemma addDocumentsToSide_status:
  assumes "fst (addDocumentsToSide newId now cid sd dd st) = Inr c'"
  shows "status c' = (if has_documents (sideA c') \<and> has_documents (sideB c')
                      then ''ready_for_judgment'' else ''awaiting_documents'')"
proof -
  obtain c1 s where us: "upload_status c1 = Inr s" and
    c': "c' = c1\<lparr>status := s, metadata := (metadata c1)\<lparr>lastActivity := now\<rparr>, updatedAt := now\<rparr>"
    using assms
    by (auto simp: addDocumentsToSide_def Let_def saveCase_def split: prod.splits sum.splits)
  from upload_status_cases[OF us] show ?thesis
    by (auto simp: c' has_documents_def split: option.splits)
qed

text \<open>
  C4. \<open>createCase\<close> stores the new record, with status \<open>created\<close>. Whenever
  \<open>addDocumentsToSide\<close> returns, the record returned is the one stored under its id, with
  status \<open>ready_for_judgment\<close> if both of its sides hold at least one document and
  \<open>awaiting_documents\<close> otherwise; it does return on every case whose two sides carry a
  document list, and for an id with no record, where the paths of the requested and of
  the generated id name files, it returns the stored record with status
  \<open>awaiting_documents\<close> (the other side of a new case holds no document). On an existing
  case \<open>setVerdict\<close> stores and returns the record with status \<open>verdict_rendered\<close>, and
  \<open>addArgument\<close> with status \<open>arguments_phase\<close>; no other entry of the store changes.
  In every store the requests reach, overlapping ones included, the status of every case
  is one of the five values.
\<close>

theorem status_transitions:
  "(\<exists>c'. createCase newId now ttl descr ctry ctype st = (c', st(newId \<mapsto> c')) \<and>
         status c' = ''created'') \<and>
   (\<forall>c'. fst (addDocumentsToSide newId now cid sd dd st) = Inr c' \<longrightarrow>
      status c' = (if has_documents (sideA c') \<and> has_documents (sideB c')
                   then ''ready_for_judgment'' else ''awaiting_documents'') \<and>
      snd (addDocumentsToSide newId now cid sd dd st) (caseId c') = Some c') \<and>
   ((\<exists>c. getCase st cid = Some c \<and> \<not> documents_missing (sideA c) \<and>
         \<not> documents_missing (sideB c)) \<longrightarrow>
      (\<exists>c'. fst (addDocumentsToSide newId now cid sd dd st) = Inr c')) \<and>
   ((\<forall>s. P s cid = File k) \<and> (\<forall>s. P s newId = File kn) \<and> getCase_fs P st cid = Inr None \<longrightarrow>
      (\<exists>c'. fst (addDocumentsToSide_fs P newId now cid sd dd st) = Inr c' \<and>
            status c' = ''awaiting_documents'' \<and>
            snd (addDocumentsToSide_fs P newId now cid sd dd st) k = Some c')) \<and>
   (\<forall>c. getCase st cid = Some c \<longrightarrow>
      (\<exists>c'. setVerdict now cid v st = (Inr c', st(caseId c \<mapsto> c')) \<and>
            status c' = ''verdict_rendered'')) \<and>
   (\<forall>c. getCase st cid = Some c \<longrightarrow>
      (\<exists>c'. addArgument now rid cid a st = (Inr c', st(caseId c \<mapsto> c')) \<and>
            status c' = ''arguments_phase'')) \<and>
   (\<forall>ps k c. reachable st ps \<and> st k = Some c \<longrightarrow> status c \<in> set statuses)"
proof (intro conjI allI impI)
  show "\<exists>c'. createCase newId now ttl descr ctry ctype st = (c', st(newId \<mapsto> c')) \<and>
         status c' = ''created''"
    using createCase_eq[of newId now ttl descr ctry ctype st] by blast
next
  fix c' assume r: "fst (addDocumentsToSide newId now cid sd dd st) = Inr c'"
  then show "status c' = (if has_documents (sideA c') \<and> has_documents (sideB c')
                   then ''ready_for_judgment'' else ''awaiting_documents'')"
    by (rule addDocumentsToSide_status)
  from r show "snd (addDocumentsToSide newId now cid sd dd st) (caseId c') = Some c'"
    by (auto simp: addDocumentsToSide_def Let_def saveCase_def split: prod.splits sum.splits)
next
  assume "\<exists>c. getCase st cid = Some c \<and> \<not> documents_missing (sideA c) \<and>
         \<not> documents_missing (sideB c)"
  then obtain c where "getCase st cid = Some c" "\<not> documents_missing (sideA c)"
    "\<not> documents_missing (sideB c)" by blast
  from addDocs_existing[OF this, of newId now sd dd]
  show "\<exists>c'. fst (addDocumentsToSide newId now cid sd dd st) = Inr c'" by auto
next
  assume "(\<forall>s. P s cid = File k) \<and> (\<forall>s. P s newId = File kn) \<and>
    getCase_fs P st cid = Inr None"
  then show "\<exists>c'. fst (addDocumentsToSide_fs P newId now cid sd dd st) = Inr c' \<and>
            status c' = ''awaiting_documents'' \<and>
            snd (addDocumentsToSide_fs P newId now cid sd dd st) k = Some c'"
    using addDocumentsToSide_fs_new_status[of P cid k newId kn st now sd dd] by blast
next
  fix c assume "getCase st cid = Some c"
  then show "\<exists>c'. setVerdict now cid v st = (Inr c', st(caseId c \<mapsto> c')) \<and>
            status c' = ''verdict_rendered''"
    by (simp add: setVerdict_def saveCase_def Let_def)
next
  fix c assume "getCase st cid = Some c"
  then show "\<exists>c'. addArgument now rid cid a st = (Inr c', st(caseId c \<mapsto> c')) \<and>
            status c' = ''arguments_phase''"
    by (simp add: addArgument_def saveCase_def Let_def)
next
  fix ps k c assume "reachable st ps \<and> st k = Some c"
  then show "status c \<in> set statuses"
    using reachable_statuses_ok[of st ps] unfolding statuses_ok_def by blast
qed

theorem status_transitions_witness:
  "(\<exists>c'. createCase ''c2'' ''t2'' ''T'' ''D'' ''US'' None uploaded_store =
           (c', uploaded_store(''c2'' \<mapsto> c')) \<and> status c' = ''created'') \<and>
   (\<exists>c'. fst (addDocumentsToSide ''c2'' ''t2'' ''c1'' ''A''
              \<lparr> dd_description = None, dd_documents = [text_document] \<rparr> uploaded_store)
           = Inr c' \<and>
         has_documents (sideA c') \<and> has_documents (sideB c') \<and>
         status c' = ''ready_for_judgment'' \<and>
         snd (addDocumentsToSide ''c2'' ''t2'' ''c1'' ''A''
              \<lparr> dd_description = None, dd_documents = [text_document] \<rparr> uploaded_store)
           ''c1'' = Some c') \<and>
   (\<exists>c'. setVerdict ''t2'' ''c1'' (JBool True) uploaded_store =
           (Inr c', uploaded_store(''c1'' \<mapsto> c')) \<and>
         status c' = ''verdict_rendered'') \<and>
   (\<exists>c'. addArgument ''t2'' ''r1'' ''c1''
              \<lparr> side = ''A'', argument = ''x'', aiResponse = [], timestamp = None,
                argumentNumber = 1 \<rparr> uploaded_store =
           (Inr c', uploaded_store(''c1'' \<mapsto> c')) \<and>
         status c' = ''arguments_phase'') \<and>
   (\<exists>c'. fst (addDocumentsToSide_fs posix ''n9'' ''t2'' ''c9'' ''B''
              \<lparr> dd_description = None, dd_documents = [text_document] \<rparr> created_store)
           = Inr c' \<and>
         status c' = ''awaiting_documents'' \<and>
         snd (addDocumentsToSide_fs posix ''n9'' ''t2'' ''c9'' ''B''
              \<lparr> dd_description = None, dd_documents = [text_document] \<rparr> created_store)
           ''c9'' = Some c') \<and>
   reachable uploaded_store [] \<and>
   (\<exists>c. uploaded_store ''c1'' = Some c \<and> status c = ''awaiting_documents'' \<and>
        status c \<in> set statuses)"
proof -
  define dd where "dd = \<lparr> dd_description = None, dd_documents = [text_document] \<rparr>"
  define a where "a = \<lparr> side = ''A'', argument = ''x'', aiResponse = [], timestamp = None,
                argumentNumber = 1 \<rparr>"
  note t = status_transitions[where newId = "''c2''" and now = "''t2''" and ttl = "''T''"
      and descr = "''D''" and ctry = "''US''" and ctype = None and st = uploaded_store
      and cid = "''c1''" and sd = "''A''" and dd = dd and v = "JBool True" and rid = "''r1''"
      and a = a]
  note t1 = t[THEN conjunct1]
  note t2 = t[THEN conjunct2, THEN conjunct1]
  note t3 = t[THEN conjunct2, THEN conjunct2, THEN conjunct1]
  note t4 = t[THEN conjunct2, THEN conjunct2, THEN conjunct2, THEN conjunct2, THEN conjunct1]
  note t5 = t[THEN conjunct2, THEN conjunct2, THEN conjunct2, THEN conjunct2, THEN conjunct2,
      THEN conjunct1]
  note t6 = t[THEN conjunct2, THEN conjunct2, THEN conjunct2, THEN conjunct2, THEN conjunct2,
      THEN conjunct2]
  note f = status_transitions[where P = posix and cid = "''c9''" and k = "''c9''"
      and newId = "''n9''" and kn = "''n9''" and st = created_store and now = "''t2''"
      and sd = "''B''" and dd = dd,
      THEN conjunct2, THEN conjunct2, THEN conjunct2, THEN conjunct1]
  have "(\<forall>s. posix s ''c9'' = File ''c9'') \<and> (\<forall>s. posix s ''n9'' = File ''n9'') \<and>
      getCase_fs posix created_store ''c9'' = Inr None"
    by (simp add: getCase_fs_def posix_plain created_store_eq)
  note e0 = mp[OF f this]
  obtain c where c: "getCase uploaded_store ''c1'' = Some c" "caseId c = ''c1''"
    "has_documents (sideB c)" "\<not> documents_missing (sideA c)" "status c = ''awaiting_documents''"
    using uploaded_store_case by blast
  have m: "\<not> documents_missing (sideB c)"
    using c(3) by (auto simp: has_documents_def documents_missing_def split: option.splits)
  have "\<exists>c. getCase uploaded_store ''c1'' = Some c \<and> \<not> documents_missing (sideA c) \<and>
         \<not> documents_missing (sideB c)" using c(1,4) m by blast
  then have "\<exists>c'. fst (addDocumentsToSide ''c2'' ''t2'' ''c1'' ''A'' dd uploaded_store) = Inr c'"
    using mp[OF t3] by blast
  then obtain c1 where
    c1: "fst (addDocumentsToSide ''c2'' ''t2'' ''c1'' ''A'' dd uploaded_store) = Inr c1" by blast
  from addDocs_existing[OF c(1) c(4) m, of "''c2''" "''t2''" "''A''" dd] c1
  have sides: "sideA c1 = Some (new_side ''t2'' dd)" "sideB c1 = sideB c" "caseId c1 = ''c1''"
    using c(2) by auto
  have hd: "has_documents (sideA c1)" "has_documents (sideB c1)"
    using sides c(3) by (simp_all add: has_documents_def new_side_def dd_def)
  from t2 c1 have r1: "status c1 = (if has_documents (sideA c1) \<and> has_documents (sideB c1)
                   then ''ready_for_judgment'' else ''awaiting_documents'') \<and>
      snd (addDocumentsToSide ''c2'' ''t2'' ''c1'' ''A'' dd uploaded_store) (caseId c1) = Some c1"
    by blast
  have e1: "\<exists>c'. fst (addDocumentsToSide ''c2'' ''t2'' ''c1'' ''A'' dd uploaded_store) = Inr c' \<and>
         has_documents (sideA c') \<and> has_documents (sideB c') \<and>
         status c' = ''ready_for_judgment'' \<and>
         snd (addDocumentsToSide ''c2'' ''t2'' ''c1'' ''A'' dd uploaded_store) ''c1'' = Some c'"
    using c1 hd r1 sides(3) by auto
  from t4 c(1) have "\<exists>c'. setVerdict ''t2'' ''c1'' (JBool True) uploaded_store =
           (Inr c', uploaded_store(caseId c \<mapsto> c')) \<and> status c' = ''verdict_rendered''"
    by blast
  then have e2: "\<exists>c'. setVerdict ''t2'' ''c1'' (JBool True) uploaded_store =
           (Inr c', uploaded_store(''c1'' \<mapsto> c')) \<and> status c' = ''verdict_rendered''"
    by (simp only: c(2))
  from t5 c(1) have "\<exists>c'. addArgument ''t2'' ''r1'' ''c1'' a uploaded_store =
           (Inr c', uploaded_store(caseId c \<mapsto> c')) \<and> status c' = ''arguments_phase''"
    by blast
  then have e3: "\<exists>c'. addArgument ''t2'' ''r1'' ''c1'' a uploaded_store =
           (Inr c', uploaded_store(''c1'' \<mapsto> c')) \<and> status c' = ''arguments_phase''"
    by (simp only: c(2))
  have r: "reachable uploaded_store []" by (rule serial_reachable[OF serial_uploaded])
  have u: "uploaded_store ''c1'' = Some c" using c(1) by (simp add: getCase_def)
  from t6 r u have s4: "status c \<in> set statuses" by blast
  have e4: "\<exists>c. uploaded_store ''c1'' = Some c \<and> status c = ''awaiting_documents'' \<and>
        status c \<in> set statuses" using u c(5) s4 by blast
  show ?thesis
    using t1 e1 e2 e3 e0 r e4 unfolding dd_def a_def by (intro conjI)
qed

subsection \<open>setVerdict\<close>

text \<open>
  C7. On an existing case, stored under its own id, \<open>setVerdict\<close> returns and stores the
  record with \<open>verdict\<close>, \<open>status\<close>, \<open>metadata.lastActivity\<close> and \<open>updatedAt\<close> set and
  nothing else changed: \<open>caseId\<close>, \<open>title\<close>, \<open>description\<close>, \<open>country\<close>, \<open>caseType\<close>,
  \<open>createdAt\<close>, \<open>sideA\<close>, \<open>sideB\<close>, the arguments list and the argument counters are as
  before, and so is every other entry of the store.
\<close>

theorem setVerdict_frame:
  assumes "getCase st cid = Some c" and "caseId c = cid"
  shows "\<exists>c'. setVerdict now cid v st = (Inr c', st(cid \<mapsto> c')) \<and>
           c' = c\<lparr>verdict := v, status := ''verdict_rendered'',
                   metadata := (metadata c)\<lparr>lastActivity := now\<rparr>, updatedAt := now\<rparr> \<and>
           caseId c' = caseId c \<and> title c' = title c \<and> description c' = description c \<and>
           country c' = country c \<and> caseType c' = caseType c \<and> createdAt c' = createdAt c \<and>
           sideA c' = sideA c \<and> sideB c' = sideB c \<and> arguments c' = arguments c \<and>
           totalArguments (metadata c') = totalArguments (metadata c) \<and>
           sideAArguments (metadata c') = sideAArguments (metadata c) \<and>
           sideBArguments (metadata c') = sideBArguments (metadata c)"
  using assms by (simp add: setVerdict_def saveCase_def Let_def)

theorem setVerdict_frame_witness:
  "\<exists>c. getCase argued_store ''c1'' = Some c \<and> caseId c = ''c1'' \<and>
     (\<exists>c'. setVerdict ''t3'' ''c1'' (JBool True) argued_store =
             (Inr c', argued_store(''c1'' \<mapsto> c')) \<and>
           verdict c' = JBool True \<and> status c' = ''verdict_rendered'' \<and>
           title c' = title c \<and> sideA c' = sideA c \<and> sideB c' = sideB c \<and>
           arguments c' = arguments c \<and> length (arguments_or_empty c') = 1)"
proof -
  obtain c where c: "argued_store ''c1'' = Some c" "caseId c = ''c1''"
    "length (arguments_or_empty c) = 1"
    using argued_store_case by blast
  have g: "getCase argued_store ''c1'' = Some c" by (simp add: getCase_def c(1))
  from setVerdict_frame[OF g c(2), of "''t3''" "JBool True"] obtain c' where
    c': "setVerdict ''t3'' ''c1'' (JBool True) argued_store = (Inr c', argued_store(''c1'' \<mapsto> c'))"
    "c' = c\<lparr>verdict := JBool True, status := ''verdict_rendered'',
                   metadata := (metadata c)\<lparr>lastActivity := ''t3''\<rparr>, updatedAt := ''t3''\<rparr>"
    by blast
  have "verdict c' = JBool True \<and> status c' = ''verdict_rendered'' \<and>
           title c' = title c \<and> sideA c' = sideA c \<and> sideB c' = sideB c \<and>
           arguments c' = arguments c \<and> length (arguments_or_empty c') = 1"
    using c(3) by (simp add: c'(2) arguments_or_empty_def)
  then show ?thesis using g c(2) c'(1) by blast
qed

subsection \<open>Uploads\<close>

text \<open>
  C8. An upload request whose file list is missing or empty is answered with status 400
  and the body \<open>{error: 'No files uploaded'}\<close>, and the store is left as it was: for
  side A and side B, by the disk-storage handlers and by the blob-storage ones.
\<close>

theorem upload_no_files:
  "files = None \<or> files = Some [] \<Longrightarrow>
   upload_side_a L newId now cid descr files st = ((400, ErrorBody ''No files uploaded''), st) \<and>
   upload_side_b L newId now cid descr files st = ((400, ErrorBody ''No files uploaded''), st) \<and>
   blob_upload_side_a L up newId now cid descr files st =
     ((400, ErrorBody ''No files uploaded''), st) \<and>
   blob_upload_side_b L up newId now cid descr files st =
     ((400, ErrorBody ''No files uploaded''), st)"
  by (auto simp: upload_side_a_def upload_side_b_def blob_upload_side_a_def
      blob_upload_side_b_def upload_handler_def blob_upload_handler_def)

theorem upload_no_files_witness:
  "upload_side_a text_libs ''n1'' ''t1'' ''c1'' None (Some []) created_store =
     ((400, ErrorBody ''No files uploaded''), created_store) \<and>
   upload_side_b text_libs ''n1'' ''t1'' ''c1'' None (Some []) created_store =
     ((400, ErrorBody ''No files uploaded''), created_store) \<and>
   blob_upload_side_a text_libs (\<lambda>f c d. Inl ''offline'') ''n1'' ''t1'' ''c1'' None None
       created_store = ((400, ErrorBody ''No files uploaded''), created_store) \<and>
   blob_upload_side_b text_libs (\<lambda>f c d. Inl ''offline'') ''n1'' ''t1'' ''c1'' None None
       created_store = ((400, ErrorBody ''No files uploaded''), created_store)"
proof -
  have e: "(Some [] :: upload_file list option) = None \<or>
           (Some [] :: upload_file list option) = Some []" by simp
  have n: "(None :: upload_file list option) = None \<or>
           (None :: upload_file list option) = Some []" by simp
  from upload_no_files[OF e, of text_libs "''n1''" "''t1''" "''c1''" None created_store]
       upload_no_files[OF n, of text_libs "''n1''" "''t1''" "''c1''" None created_store
         "\<lambda>f c d. Inl ''offline''"]
  show ?thesis by blast
qed

subsection \<open>Uploads for a case id with no record\<close>

text \<open>
  C9. \<open>addDocumentsToSide\<close> never fails with \<open>Case not found\<close>. For a requested id with no
  record, when the path of the requested id and the path of the generated id each name
  a file, the call returns a record, written to the file of the requested id and read
  back by \<open>getCase\<close> under that id, whose \<open>caseId\<close> is the requested id, whose title is
  \<open>Case <id>\<close>, country \<open>United States\<close> and type \<open>civil\<close>, and which carries the
  uploaded documents on side A when the side is \<open>'A'\<close> and on side B otherwise. For a
  case that exists under its own id, whenever the call returns, the record returned is
  the one written to that case's file, and carries the documents likewise. Where every
  id names its own file, the call is the \<open>addDocumentsToSide\<close> of the case record
  section.
\<close>

theorem addDocumentsToSide_auto_creates:
  "fst (addDocumentsToSide_fs P newId now cid sd dd st) \<noteq> Inl (Error ''Case not found'') \<and>
   ((\<forall>s. P s cid = File k) \<and> (\<forall>s. P s newId = File kn) \<and> getCase_fs P st cid = Inr None \<longrightarrow>
     (\<exists>c'. fst (addDocumentsToSide_fs P newId now cid sd dd st) = Inr c' \<and>
           snd (addDocumentsToSide_fs P newId now cid sd dd st) k = Some c' \<and>
           getCase_fs P (snd (addDocumentsToSide_fs P newId now cid sd dd st)) cid =
             Inr (Some c') \<and>
           caseId c' = cid \<and> title c' = ''Case '' @ cid \<and> country c' = ''United States'' \<and>
           caseType c' = ''civil'' \<and>
           (sd = ''A'' \<longrightarrow> sideA c' = Some (new_side now dd)) \<and>
           (sd \<noteq> ''A'' \<longrightarrow> sideB c' = Some (new_side now dd)))) \<and>
   (\<forall>c c'. getCase_fs P st cid = Inr (Some c) \<and> caseId c = cid \<and>
            fst (addDocumentsToSide_fs P newId now cid sd dd st) = Inr c' \<longrightarrow>
           (\<exists>k. P st cid = File k \<and>
                snd (addDocumentsToSide_fs P newId now cid sd dd st) = st(k \<mapsto> c')) \<and>
           caseId c' = cid \<and>
           (sd = ''A'' \<longrightarrow> sideA c' = Some (new_side now dd)) \<and>
           (sd \<noteq> ''A'' \<longrightarrow> sideB c' = Some (new_side now dd))) \<and>
   addDocumentsToSide_fs (\<lambda>s i. File i) newId now cid sd dd st =
     addDocumentsToSide newId now cid sd dd st"
proof (intro conjI)
  show "fst (addDocumentsToSide_fs P newId now cid sd dd st) \<noteq> Inl (Error ''Case not found'')"
    by (rule addDocumentsToSide_fs_not_found)
  show "(\<forall>s. P s cid = File k) \<and> (\<forall>s. P s newId = File kn) \<and> getCase_fs P st cid = Inr None \<longrightarrow>
     (\<exists>c'. fst (addDocumentsToSide_fs P newId now cid sd dd st) = Inr c' \<and>
           snd (addDocumentsToSide_fs P newId now cid sd dd st) k = Some c' \<and>
           getCase_fs P (snd (addDocumentsToSide_fs P newId now cid sd dd st)) cid =
             Inr (Some c') \<and>
           caseId c' = cid \<and> title c' = ''Case '' @ cid \<and> country c' = ''United States'' \<and>
           caseType c' = ''civil'' \<and>
           (sd = ''A'' \<longrightarrow> sideA c' = Some (new_side now dd)) \<and>
           (sd \<noteq> ''A'' \<longrightarrow> sideB c' = Some (new_side now dd)))"
    using addDocumentsToSide_fs_new[of P cid k newId kn st now sd dd] by blast
  show "\<forall>c c'. getCase_fs P st cid = Inr (Some c) \<and> caseId c = cid \<and>
            fst (addDocumentsToSide_fs P newId now cid sd dd st) = Inr c' \<longrightarrow>
           (\<exists>k. P st cid = File k \<and>
                snd (addDocumentsToSide_fs P newId now cid sd dd st) = st(k \<mapsto> c')) \<and>
           caseId c' = cid \<and>
           (sd = ''A'' \<longrightarrow> sideA c' = Some (new_side now dd)) \<and>
           (sd \<noteq> ''A'' \<longrightarrow> sideB c' = Some (new_side now dd))"
    using addDocumentsToSide_fs_existing[of P st cid _ newId now sd dd] by blast
  show "addDocumentsToSide_fs (\<lambda>s i. File i) newId now cid sd dd st =
     addDocumentsToSide newId now cid sd dd st"
    by (rule addDocumentsToSide_fs_plain)
qed

theorem addDocumentsToSide_auto_creates_witness:
  "(\<forall>s. posix s ''c9'' = File ''c9'') \<and> (\<forall>s. posix s ''n9'' = File ''n9'') \<and>
   getCase_fs posix created_store ''c9'' = Inr None \<and>
   (\<exists>c'. fst (addDocumentsToSide_fs posix ''n9'' ''t1'' ''c9'' ''B''
              \<lparr> dd_description = Some ''exhibits'', dd_documents = [text_document] \<rparr>
              created_store) = Inr c' \<and>
         snd (addDocumentsToSide_fs posix ''n9'' ''t1'' ''c9'' ''B''
              \<lparr> dd_description = Some ''exhibits'', dd_documents = [text_document] \<rparr>
              created_store) ''c9'' = Some c' \<and>
         caseId c' = ''c9'' \<and> title c' = ''Case c9'' \<and> country c' = ''United States'' \<and>
         caseType c' = ''civil'' \<and>
         sideB c' = Some \<lparr> side_description = Some ''exhibits'',
                           documents = Some [text_document], uploadedAt = Some ''t1'' \<rparr>) \<and>
   (\<exists>c c'. getCase_fs posix created_store ''c1'' = Inr (Some c) \<and> caseId c = ''c1'' \<and>
         fst (addDocumentsToSide_fs posix ''n9'' ''t1'' ''c1'' ''A''
              \<lparr> dd_description = None, dd_documents = [text_document] \<rparr> created_store)
           = Inr c' \<and>
         snd (addDocumentsToSide_fs posix ''n9'' ''t1'' ''c1'' ''A''
              \<lparr> dd_description = None, dd_documents = [text_document] \<rparr> created_store)
           = created_store(''c1'' \<mapsto> c') \<and>
         caseId c' = ''c1'' \<and>
         sideA c' = Some \<lparr> side_description = None, documents = Some [text_document],
                           uploadedAt = Some ''t1'' \<rparr>)"
proof -
  define dd where "dd = \<lparr> dd_description = Some ''exhibits'', dd_documents = [text_document] \<rparr>"
  define de where "de = \<lparr> dd_description = None, dd_documents = [text_document] \<rparr>"
  have p9: "\<forall>s. posix s ''c9'' = File ''c9''" by (simp add: posix_plain)
  have pn: "\<forall>s. posix s ''n9'' = File ''n9''" by (simp add: posix_plain)
  have n: "getCase_fs posix created_store ''c9'' = Inr None"
    by (simp add: getCase_fs_def posix_plain created_store_eq)
  obtain c where c: "getCase_fs posix created_store ''c1'' = Inr (Some c)" "caseId c = ''c1''"
    "\<not> documents_missing (sideA c)" "\<not> documents_missing (sideB c)"
    by (simp add: getCase_fs_def posix_plain created_store_eq documents_missing_def
        empty_side_def)
  have "\<exists>c1. fst (addDocumentsToSide_fs posix ''n9'' ''t1'' ''c1'' ''A'' de created_store) =
          Inr c1"
    by (simp add: addDocumentsToSide_fs_def getCase_fs_def saveCase_fs_def
        posix_plain created_store_eq Let_def upload_status_def documents_length_def
        empty_side_def de_def)
  then obtain c1 where c1:
    "fst (addDocumentsToSide_fs posix ''n9'' ''t1'' ''c1'' ''A'' de created_store) = Inr c1"
    by blast
  note t1 = addDocumentsToSide_auto_creates[of posix "''n9''" "''t1''" "''c9''" "''B''" dd
      created_store "''c9''" "''n9''"]
  note t2 = addDocumentsToSide_auto_creates[of posix "''n9''" "''t1''" "''c1''" "''A''" de
      created_store "''c1''" "''n9''"]
  from t1[THEN conjunct2, THEN conjunct1] p9 pn n obtain c' where c':
    "fst (addDocumentsToSide_fs posix ''n9'' ''t1'' ''c9'' ''B'' dd created_store) = Inr c'"
    "snd (addDocumentsToSide_fs posix ''n9'' ''t1'' ''c9'' ''B'' dd created_store) ''c9'' = Some c'"
    "caseId c' = ''c9''" "title c' = ''Case '' @ ''c9''" "country c' = ''United States''"
    "caseType c' = ''civil''" "''B'' \<noteq> ''A'' \<longrightarrow> sideB c' = Some (new_side ''t1'' dd)"
    by blast
  have sb: "sideB c' = Some \<lparr> side_description = Some ''exhibits'',
                  documents = Some [text_document], uploadedAt = Some ''t1'' \<rparr>"
    using c'(7) by (simp add: new_side_def dd_def)
  have ti: "title c' = ''Case c9''" using c'(4) by simp
  from t2[THEN conjunct2, THEN conjunct2, THEN conjunct1] c(1,2) c1 have e:
    "\<exists>k. posix created_store ''c1'' = File k \<and>
         snd (addDocumentsToSide_fs posix ''n9'' ''t1'' ''c1'' ''A'' de created_store) =
           created_store(k \<mapsto> c1)"
    "caseId c1 = ''c1''" "''A'' = ''A'' \<longrightarrow> sideA c1 = Some (new_side ''t1'' de)"
    by blast+
  have st: "snd (addDocumentsToSide_fs posix ''n9'' ''t1'' ''c1'' ''A'' de created_store) =
           created_store(''c1'' \<mapsto> c1)"
    using e(1) by (auto simp: posix_plain)
  have sa: "sideA c1 = Some \<lparr> side_description = None, documents = Some [text_document],
                           uploadedAt = Some ''t1'' \<rparr>"
    using e(3) by (simp add: new_side_def de_def)
  have q1: "\<exists>c'. fst (addDocumentsToSide_fs posix ''n9'' ''t1'' ''c9'' ''B'' dd created_store)
           = Inr c' \<and>
         snd (addDocumentsToSide_fs posix ''n9'' ''t1'' ''c9'' ''B'' dd created_store) ''c9''
           = Some c' \<and>
         caseId c' = ''c9'' \<and> title c' = ''Case c9'' \<and> country c' = ''United States'' \<and>
         caseType c' = ''civil'' \<and>
         sideB c' = Some \<lparr> side_description = Some ''exhibits'',
                           documents = Some [text_document], uploadedAt = Some ''t1'' \<rparr>"
    using c'(1,2,3,5,6) ti sb by blast
  have q2: "\<exists>c c'. getCase_fs posix created_store ''c1'' = Inr (Some c) \<and> caseId c = ''c1'' \<and>
         fst (addDocumentsToSide_fs posix ''n9'' ''t1'' ''c1'' ''A'' de created_store) = Inr c' \<and>
         snd (addDocumentsToSide_fs posix ''n9'' ''t1'' ''c1'' ''A'' de created_store)
           = created_store(''c1'' \<mapsto> c') \<and>
         caseId c' = ''c1'' \<and>
         sideA c' = Some \<lparr> side_description = None, documents = Some [text_document],
                           uploadedAt = Some ''t1'' \<rparr>"
    using c(1,2) c1 st e(2) sa by blast
  show ?thesis using p9 pn n q1 q2 unfolding dd_def de_def by (intro conjI)
qed

text \<open>
  Without the condition on the paths the claim fails. The id \<open>a/b\<close> joins to a path in a
  directory that does not exist: the read finds nothing, \<open>createCase\<close> writes its record
  under the generated id, and the second save fails; the call fails with the error of
  the save, nothing is stored for \<open>a/b\<close>, and the record under the generated id stays.
  The id \<open>x/../c1\<close> joins to the path of case \<open>c1\<close>: the upload goes to the record of
  \<open>c1\<close>, and the \<open>caseId\<close> returned is \<open>c1\<close>, not the requested id.
\<close>

theorem addDocumentsToSide_auto_creates_counterexample:
  "getCase_fs posix Map.empty ''a/b'' = Inr None \<and>
   fst (addDocumentsToSide_fs posix ''n9'' ''t1'' ''a/b'' ''A''
          \<lparr> dd_description = None, dd_documents = [text_document] \<rparr> Map.empty) =
     Inl (Error ''Error saving case a/b: ENOENT: no such file or directory'') \<and>
   getCase_fs posix
     (snd (addDocumentsToSide_fs posix ''n9'' ''t1'' ''a/b'' ''A''
          \<lparr> dd_description = None, dd_documents = [text_document] \<rparr> Map.empty)) ''a/b'' =
     Inr None \<and>
   map_option caseId
     (snd (addDocumentsToSide_fs posix ''n9'' ''t1'' ''a/b'' ''A''
          \<lparr> dd_description = None, dd_documents = [text_document] \<rparr> Map.empty) ''n9'') =
     Some ''n9'' \<and>
   map_sum (\<lambda>e. e) caseId
     (fst (addDocumentsToSide_fs posix ''n9'' ''t1'' ''x/../c1'' ''A''
          \<lparr> dd_description = None, dd_documents = [text_document] \<rparr> created_store)) =
     Inr ''c1''"
proof -
  have p: "posix s ''a/b'' = NoEntry" if "s ''a'' = None" for s :: store
    by (simp add: posix_def joined_def join_step_def strip_json_def Let_def)
  have a: "addDocumentsToSide_fs posix ''n9'' ''t1'' ''a/b'' ''A''
          \<lparr> dd_description = None, dd_documents = [text_document] \<rparr> Map.empty =
        (Inl (Error ''Error saving case a/b: ENOENT: no such file or directory''),
         [''n9'' \<mapsto> \<lparr> caseId = ''n9'', title = ''Case a/b'',
            description = ''Auto-created case from document upload'',
            country = ''United States'', caseType = ''civil'', status = ''created'',
            createdAt = ''t1'', updatedAt = ''t1'',
            sideA = Some empty_side, sideB = Some empty_side, verdict = JNull,
            arguments = Some [],
            metadata = \<lparr> totalArguments = 0, sideAArguments = 0, sideBArguments = 0,
                         lastActivity = ''t1'' \<rparr> \<rparr>])"
    by (simp add: addDocumentsToSide_fs_def getCase_fs_def createCase_fs_def saveCase_fs_def
        p posix_plain Let_def js_or_def upload_status_def documents_length_def empty_side_def)
  have b: "map_sum (\<lambda>e. e) caseId
     (fst (addDocumentsToSide_fs posix ''n9'' ''t1'' ''x/../c1'' ''A''
          \<lparr> dd_description = None, dd_documents = [text_document] \<rparr> created_store)) =
     Inr ''c1''"
    by (simp add: addDocumentsToSide_fs_def getCase_fs_def saveCase_fs_def
        posix_plain created_store_eq Let_def upload_status_def documents_length_def
        empty_side_def)
  show ?thesis unfolding a using b by (simp add: getCase_fs_def p)
qed

subsection \<open>Argument counters\<close>

lemma filter_sides_length:
  "(\<forall>x \<in> set xs. side x = ''A'' \<or> side x = ''B'') \<Longrightarrow>
   length (filter (\<lambda>x. side x = ''A'') xs) + length (filter (\<lambda>x. side x = ''B'') xs) = length xs"
  by (induction xs) auto

text \<open>
  C10. On an existing case \<open>addArgument\<close> returns, and stores, a record whose arguments
  list is the old one with the new entry appended, and whose counters agree with it:
  \<open>totalArguments\<close> is the length of the list, \<open>sideAArguments\<close> the number of entries
  with side \<open>'A'\<close>, \<open>sideBArguments\<close> the number with side \<open>'B'\<close>; the two add up to the
  total when every entry has side \<open>'A'\<close> or \<open>'B'\<close>.
\<close>

theorem addArgument_counters:
  assumes "getCase st cid = Some c"
  shows "\<exists>c'. fst (addArgument now rid cid a st) = Inr c' \<and>
           snd (addArgument now rid cid a st) (caseId c) = Some c' \<and>
           arguments c' = Some (arguments_or_empty c @ [make_entry now rid a]) \<and>
           totalArguments (metadata c') = length (arguments_or_empty c') \<and>
           sideAArguments (metadata c') =
             length (filter (\<lambda>x. side x = ''A'') (arguments_or_empty c')) \<and>
           sideBArguments (metadata c') =
             length (filter (\<lambda>x. side x = ''B'') (arguments_or_empty c')) \<and>
           ((\<forall>x \<in> set (arguments_or_empty c'). side x = ''A'' \<or> side x = ''B'') \<longrightarrow>
              sideAArguments (metadata c') + sideBArguments (metadata c') =
                totalArguments (metadata c'))"
  using assms filter_sides_length[of "arguments_or_empty c @ [make_entry now rid a]"]
  by (simp add: addArgument_def saveCase_def Let_def arguments_or_empty_def)

theorem addArgument_counters_witness:
  "\<exists>c. getCase argued_store ''c1'' = Some c \<and>
     (\<exists>c'. fst (addArgument ''t3'' ''r2'' ''c1''
               \<lparr> side = ''B'', argument = ''y'', aiResponse = [], timestamp = None,
                 argumentNumber = 1 \<rparr> argued_store) = Inr c' \<and>
           totalArguments (metadata c') = 2 \<and> sideAArguments (metadata c') = 1 \<and>
           sideBArguments (metadata c') = 1 \<and> length (arguments_or_empty c') = 2)"
proof -
  let ?a = "\<lparr> side = ''B'', argument = ''y'', aiResponse = [], timestamp = None,
                 argumentNumber = 1 \<rparr>"
  obtain c where c: "argued_store ''c1'' = Some c"
    "length (arguments_or_empty c) = 1"
    "length (filter (\<lambda>a. side a = ''A'') (arguments_or_empty c)) = 1"
    using argued_store_case by blast
  have g: "getCase argued_store ''c1'' = Some c" by (simp add: getCase_def c(1))
  from addArgument_counters[OF g, of "''t3''" "''r2''" ?a] obtain c' where c':
    "fst (addArgument ''t3'' ''r2'' ''c1'' ?a argued_store) = Inr c'"
    "arguments c' = Some (arguments_or_empty c @ [make_entry ''t3'' ''r2'' ?a])"
    "totalArguments (metadata c') = length (arguments_or_empty c')"
    "sideAArguments (metadata c') =
             length (filter (\<lambda>x. side x = ''A'') (arguments_or_empty c'))"
    "sideBArguments (metadata c') =
             length (filter (\<lambda>x. side x = ''B'') (arguments_or_empty c'))"
    by blast
  have l: "arguments_or_empty c' = arguments_or_empty c @ [make_entry ''t3'' ''r2'' ?a]"
    using c'(2) by (simp add: arguments_or_empty_def)
  have b: "length (filter (\<lambda>x. side x = ''B'') (arguments_or_empty c)) = 0"
  proof -
    obtain e where "arguments_or_empty c = [e]" using c(2)
      by (cases "arguments_or_empty c") auto
    then show ?thesis using c(3) by (auto split: if_splits)
  qed
  have "totalArguments (metadata c') = 2 \<and> sideAArguments (metadata c') = 1 \<and>
           sideBArguments (metadata c') = 1 \<and> length (arguments_or_empty c') = 2"
    using c'(3,4,5) c(2,3) b by (simp add: l make_entry_def)
  then show ?thesis using g c'(1) by blast
qed

subsection \<open>Document text extraction\<close>

lemma collapse_spaces_chars:
  "c \<in> set (collapse_spaces s) \<Longrightarrow> c = 32 \<or> \<not> is_space c"
  by (induction s rule: collapse_spaces.induct) (auto split: if_splits)

lemma is_space_10: "is_space 10"
  by (simp add: is_space_def)

lemma collapse_spaces_no_newline: "10 \<notin> set (collapse_spaces s)"
  using collapse_spaces_chars[of 10 s] is_space_10 by auto

lemma squeeze_breaks_id: "10 \<notin> set s \<Longrightarrow> squeeze_breaks s = s"
  by (induction s) auto

lemma spec_collapse_runs_eq:
  "spec_collapse_runs False s = collapse_spaces s \<and>
   spec_collapse_runs True s = collapse_spaces (dropWhile is_space s)"
  by (induction s) auto

lemma cleanExtractedText_spec: "cleanExtractedText text = spec_normalize text"
  by (simp add: cleanExtractedText_def spec_normalize_def spec_collapse_runs_eq
      squeeze_breaks_id collapse_spaces_no_newline trim_def)

lemma set_trim: "set (trim s) \<subseteq> set s"
proof -
  have "set (dropWhile is_space (rev (dropWhile is_space s))) \<subseteq> set (rev (dropWhile is_space s))"
    by (rule set_dropWhileD[THEN subsetI])
  moreover have "set (dropWhile is_space s) \<subseteq> set s" by (rule set_dropWhileD[THEN subsetI])
  ultimately show ?thesis by (auto simp: trim_def)
qed

lemma trim_ends:
  "trim s \<noteq> [] \<Longrightarrow> \<not> is_space (hd (trim s)) \<and> \<not> is_space (last (trim s))"
proof -
  assume ne: "trim s \<noteq> []"
  let ?d = "dropWhile is_space s"
  let ?r = "dropWhile is_space (rev ?d)"
  have r: "?r \<noteq> []" using ne by (simp add: trim_def)
  then have h: "\<not> is_space (hd ?r)" by (rule hd_dropWhile)
  have l: "last (trim s) = hd ?r" using r by (simp add: trim_def last_rev)
  have d: "?d \<noteq> []"
    using r by (cases "dropWhile is_space s") (simp_all del: dropWhile_eq_Nil_conv)
  then have hd_d: "\<not> is_space (hd ?d)" by (rule hd_dropWhile)
  obtain xs where xs: "rev ?d = xs @ ?r" "\<forall>x \<in> set xs. is_space x"
    by (metis takeWhile_dropWhile_id set_takeWhileD)
  then have "?d = rev ?r @ rev xs" by (metis rev_append rev_rev_ident)
  then have "hd ?d = hd (rev ?r)" using r by (metis hd_append2 rev_is_Nil_conv)
  then have "\<not> is_space (hd (trim s))" using hd_d by (simp add: trim_def)
  then show ?thesis using h l by simp
qed

lemma rethrow_Inr: "rethrow r = Inr t \<longleftrightarrow> r = Inr t"
  by (simp add: rethrow_def split: sum.splits)

text \<open>
  C5. \<open>parseDocument\<close> (and \<open>parseDocumentFromBuffer\<close>) choose the parser by the MIME
  type alone: the PDF parser for \<open>application/pdf\<close>, the Word parser for
  \<open>application/msword\<close> and for the docx type, the plain-text reader for \<open>text/plain\<close>,
  and an error for every other type. Every text they return is \<open>cleanExtractedText\<close> of
  the text the chosen library call produced. \<open>cleanExtractedText\<close> is the normalisation
  of the specification (every whitespace run becomes one space, then the ends are
  trimmed): in its result the only whitespace is the single space, and neither end is
  whitespace.
\<close>

theorem parseDocument_dispatch:
  "parseDocument L filePath mimeType =
     (if mimeType = ''application/pdf'' then rethrow (parsePDF L filePath)
      else if mimeType = ''application/msword'' \<or>
              mimeType = ''application/vnd.openxmlformats-officedocument.wordprocessingml.document''
      then rethrow (parseWord L filePath)
      else if mimeType = ''text/plain'' then rethrow (parseText L filePath)
      else Inl (Error (''Failed to parse document: Unsupported file type: '' @ mimeType))) \<and>
   parseDocumentFromBuffer L buf mimeType =
     (if mimeType = ''application/pdf'' then rethrow (parsePDFFromBuffer L buf)
      else if mimeType = ''application/msword'' \<or>
              mimeType = ''application/vnd.openxmlformats-officedocument.wordprocessingml.document''
      then rethrow (parseWordFromBuffer L buf)
      else if mimeType = ''text/plain'' then Inr (cleanExtractedText (toString_utf8 L buf))
      else Inl (Error (''Failed to parse document: Unsupported file type: '' @ mimeType))) \<and>
   (\<forall>t. parseDocument L filePath mimeType = Inr t \<longrightarrow>
      (\<exists>raw. t = cleanExtractedText raw \<and>
         ((mimeType = ''application/pdf'' \<and>
             (\<exists>b. readFile L filePath = Inr b \<and> pdfParse L b = Inr raw)) \<or>
          ((mimeType = ''application/msword'' \<or> mimeType =
              ''application/vnd.openxmlformats-officedocument.wordprocessingml.document'') \<and>
             extractRawText_path L filePath = Inr raw) \<or>
          (mimeType = ''text/plain'' \<and> readFile_utf8 L filePath = Inr raw)))) \<and>
   (\<forall>t. parseDocumentFromBuffer L buf mimeType = Inr t \<longrightarrow>
      (\<exists>raw. t = cleanExtractedText raw \<and>
         ((mimeType = ''application/pdf'' \<and> pdfParse L buf = Inr raw) \<or>
          ((mimeType = ''application/msword'' \<or> mimeType =
              ''application/vnd.openxmlformats-officedocument.wordprocessingml.document'') \<and>
             extractRawText_buffer L buf = Inr raw) \<or>
          (mimeType = ''text/plain'' \<and> toString_utf8 L buf = raw)))) \<and>
   cleanExtractedText text = spec_normalize text \<and>
   (\<forall>c \<in> set (cleanExtractedText text). is_space c \<longrightarrow> c = 32) \<and>
   (cleanExtractedText text \<noteq> [] \<longrightarrow>
      \<not> is_space (hd (cleanExtractedText text)) \<and> \<not> is_space (last (cleanExtractedText text)))"
proof (intro conjI allI impI ballI)
  show "parseDocument L filePath mimeType =
     (if mimeType = ''application/pdf'' then rethrow (parsePDF L filePath)
      else if mimeType = ''application/msword'' \<or>
              mimeType = ''application/vnd.openxmlformats-officedocument.wordprocessingml.document''
      then rethrow (parseWord L filePath)
      else if mimeType = ''text/plain'' then rethrow (parseText L filePath)
      else Inl (Error (''Failed to parse document: Unsupported file type: '' @ mimeType)))"
    by (simp add: parseDocument_def rethrow_def)
  show "parseDocumentFromBuffer L buf mimeType =
     (if mimeType = ''application/pdf'' then rethrow (parsePDFFromBuffer L buf)
      else if mimeType = ''application/msword'' \<or>
              mimeType = ''application/vnd.openxmlformats-officedocument.wordprocessingml.document''
      then rethrow (parseWordFromBuffer L buf)
      else if mimeType = ''text/plain'' then Inr (cleanExtractedText (toString_utf8 L buf))
      else Inl (Error (''Failed to parse document: Unsupported file type: '' @ mimeType)))"
    by (simp add: parseDocumentFromBuffer_def rethrow_def)
next
  fix t assume "parseDocument L filePath mimeType = Inr t"
  then show "\<exists>raw. t = cleanExtractedText raw \<and>
         ((mimeType = ''application/pdf'' \<and>
             (\<exists>b. readFile L filePath = Inr b \<and> pdfParse L b = Inr raw)) \<or>
          ((mimeType = ''application/msword'' \<or> mimeType =
              ''application/vnd.openxmlformats-officedocument.wordprocessingml.document'') \<and>
             extractRawText_path L filePath = Inr raw) \<or>
          (mimeType = ''text/plain'' \<and> readFile_utf8 L filePath = Inr raw))"
    unfolding parseDocument_def rethrow_Inr
    by (auto simp: parsePDF_def parseWord_def parseText_def split: if_splits sum.splits)
next
  fix t assume "parseDocumentFromBuffer L buf mimeType = Inr t"
  then show "\<exists>raw. t = cleanExtractedText raw \<and>
         ((mimeType = ''application/pdf'' \<and> pdfParse L buf = Inr raw) \<or>
          ((mimeType = ''application/msword'' \<or> mimeType =
              ''application/vnd.openxmlformats-officedocument.wordprocessingml.document'') \<and>
             extractRawText_buffer L buf = Inr raw) \<or>
          (mimeType = ''text/plain'' \<and> toString_utf8 L buf = raw))"
    unfolding parseDocumentFromBuffer_def rethrow_Inr
    by (auto simp: parsePDFFromBuffer_def parseWordFromBuffer_def split: if_splits sum.splits)
next
  show "cleanExtractedText text = spec_normalize text" by (rule cleanExtractedText_spec)
next
  fix c assume "c \<in> set (cleanExtractedText text)" "is_space c"
  then have "c \<in> set (collapse_spaces text)"
    using set_trim[of "collapse_spaces text"]
    by (auto simp: cleanExtractedText_def squeeze_breaks_id collapse_spaces_no_newline
        split: if_splits)
  with \<open>is_space c\<close> show "c = 32" using collapse_spaces_chars by blast
next
  assume ne: "cleanExtractedText text \<noteq> []"
  then have eq: "cleanExtractedText text = trim (squeeze_breaks (collapse_spaces text))"
    by (simp add: cleanExtractedText_def split: if_splits)
  from ne trim_ends[of "squeeze_breaks (collapse_spaces text)"]
  show "\<not> is_space (hd (cleanExtractedText text))" "\<not> is_space (last (cleanExtractedText text))"
    unfolding eq by simp_all
qed

theorem parseDocument_dispatch_witness:
  "parseDocument text_libs ''uploads/b.txt'' ''text/plain'' = Inr [104, 105] \<and>
   readFile_utf8 text_libs ''uploads/b.txt'' = Inr [104, 105] \<and>
   parseDocument text_libs ''uploads/b.png'' ''image/png'' =
     Inl (Error ''Failed to parse document: Unsupported file type: image/png'') \<and>
   parseDocumentFromBuffer text_libs [32, 104, 105, 10] ''text/plain'' = Inr [104, 105] \<and>
   cleanExtractedText [32, 104, 10, 9, 10, 10, 105, 32] = [104, 32, 105] \<and>
   spec_normalize [32, 104, 10, 9, 10, 10, 105, 32] = [104, 32, 105] \<and>
   \<not> is_space (hd (cleanExtractedText [32, 104, 10, 9, 10, 10, 105, 32]))"
proof -
  define raw :: jsstring where "raw = [32, 104, 10, 9, 10, 10, 105, 32]"
  note t1 = parseDocument_dispatch[of text_libs "''uploads/b.txt''" "''text/plain''"
      "[32, 104, 105, 10]" raw]
  note t2 = parseDocument_dispatch[of text_libs "''uploads/b.png''" "''image/png''"
      "[32, 104, 105, 10]" raw]
  have c: "cleanExtractedText raw = [104, 32, 105]"
    by (simp add: raw_def cleanExtractedText_def trim_def is_space_def)
  have p: "parseText text_libs ''uploads/b.txt'' = Inr [104, 105]"
    by (simp add: parseText_def text_libs_def no_text_def cleanExtractedText_def trim_def
        is_space_def)
  have b: "cleanExtractedText (toString_utf8 text_libs [32, 104, 105, 10]) = [104, 105]"
    by (simp add: text_libs_def cleanExtractedText_def trim_def is_space_def)
  have a1: "parseDocument text_libs ''uploads/b.txt'' ''text/plain'' = Inr [104, 105]"
    using t1[THEN conjunct1] by (simp add: p rethrow_def)
  have a2: "readFile_utf8 text_libs ''uploads/b.txt'' = Inr [104, 105]"
    by (simp add: text_libs_def)
  have a3: "parseDocument text_libs ''uploads/b.png'' ''image/png'' =
     Inl (Error ''Failed to parse document: Unsupported file type: image/png'')"
    using t2[THEN conjunct1] by simp
  have a4: "parseDocumentFromBuffer text_libs [32, 104, 105, 10] ''text/plain'' =
     Inr [104, 105]"
    using t1[THEN conjunct2, THEN conjunct1] by (simp add: b)
  have a5: "spec_normalize raw = [104, 32, 105]"
    using t1[THEN conjunct2, THEN conjunct2, THEN conjunct2, THEN conjunct2, THEN conjunct1] c
    by simp
  have a6: "\<not> is_space (hd (cleanExtractedText raw))"
    using t1[THEN conjunct2, THEN conjunct2, THEN conjunct2, THEN conjunct2, THEN conjunct2,
             THEN conjunct2] c
    by simp
  show ?thesis using a1 a2 a3 a4 c a5 a6 unfolding raw_def by (intro conjI)
qed

subsection \<open>The AI response\<close>

lemma upto_last_split:
  assumes "x \<in> set s"
  shows "\<exists>ys. take (upto_last x s) s = ys @ [x] \<and> x \<notin> set (drop (upto_last x s) s)"
proof -
  let ?tw = "takeWhile (\<lambda>c. c \<noteq> x) (rev s)"
  let ?dw = "dropWhile (\<lambda>c. c \<noteq> x) (rev s)"
  have r: "rev s = ?tw @ ?dw" by simp
  then have s: "s = rev ?dw @ rev ?tw" by (metis rev_append rev_rev_ident)
  have len: "upto_last x s = length (rev ?dw)"
  proof -
    have "length s = length ?tw + length ?dw" by (metis r length_append length_rev)
    then show ?thesis by (simp add: upto_last_def)
  qed
  have tk: "take (upto_last x s) s = rev ?dw" unfolding len by (subst (2) s) simp
  have dr: "drop (upto_last x s) s = rev ?tw" unfolding len by (subst (2) s) simp
  have "x \<in> set (rev s)" using assms by simp
  then have ne: "?dw \<noteq> []" by (auto simp: dropWhile_eq_Nil_conv)
  then have "hd ?dw = x" using hd_dropWhile[of "\<lambda>c. c \<noteq> x" "rev s"] by simp
  then obtain zs where "?dw = x # zs" using ne by (cases ?dw) auto
  then have "rev ?dw = rev zs @ [x]" by simp
  moreover have "x \<notin> set (rev ?tw)" using set_takeWhileD[of x "\<lambda>c. c \<noteq> x" "rev s"] by auto
  ultimately show ?thesis using tk dr by auto
qed

lemma json_match_Some:
  assumes "json_match response = Some m"
  shows "\<exists>pre mid post. response = pre @ m @ post \<and> m = 123 # mid @ [125] \<and>
           123 \<notin> set pre \<and> 125 \<notin> set post"
proof -
  let ?pre = "takeWhile (\<lambda>c. c \<noteq> 123) response"
  obtain b rest where d: "dropWhile (\<lambda>c. c \<noteq> 123) response = b # rest"
    and in125: "125 \<in> set rest" and m: "m = b # take (upto_last 125 rest) rest"
    using assms by (auto simp: json_match_def split: list.splits if_splits)
  have b: "b = 123" using hd_dropWhile[of "\<lambda>c. c \<noteq> 123" response] d by auto
  from upto_last_split[OF in125] obtain ys where
    ys: "take (upto_last 125 rest) rest = ys @ [125]"
    and post: "125 \<notin> set (drop (upto_last 125 rest) rest)" by blast
  have "response = ?pre @ b # rest" using d by (metis takeWhile_dropWhile_id)
  also have "rest = take (upto_last 125 rest) rest @ drop (upto_last 125 rest) rest" by simp
  finally have "response = ?pre @ m @ drop (upto_last 125 rest) rest" by (simp add: m)
  moreover have "123 \<notin> set ?pre" using set_takeWhileD[of 123 "\<lambda>c. c \<noteq> 123" response] by auto
  moreover have "m = 123 # ys @ [125]" using m b ys by simp
  ultimately show ?thesis using post by blast
qed

lemma json_match_None:
  "json_match response = None \<longleftrightarrow> \<not> (\<exists>pre mid post. response = pre @ 123 # mid @ 125 # post)"
proof
  assume n: "json_match response = None"
  show "\<not> (\<exists>pre mid post. response = pre @ 123 # mid @ 125 # post)"
  proof
    assume "\<exists>pre mid post. response = pre @ 123 # mid @ 125 # post"
    then obtain pre mid post where r: "response = pre @ 123 # mid @ 125 # post" by blast
    let ?p = "takeWhile (\<lambda>c. c \<noteq> 123) pre"
    have "dropWhile (\<lambda>c. c \<noteq> 123) response =
            dropWhile (\<lambda>c. c \<noteq> 123) pre @ 123 # mid @ 125 # post
          \<or> dropWhile (\<lambda>c. c \<noteq> 123) response = 123 # mid @ 125 # post"
      unfolding r by (cases "\<forall>c \<in> set pre. c \<noteq> 123") (auto simp: dropWhile_append)
    then obtain b rest where "dropWhile (\<lambda>c. c \<noteq> 123) response = b # rest" "125 \<in> set rest"
      by (cases "dropWhile (\<lambda>c. c \<noteq> 123) pre") auto
    then show False using n by (simp add: json_match_def)
  qed
next
  assume a: "\<not> (\<exists>pre mid post. response = pre @ 123 # mid @ 125 # post)"
  show "json_match response = None"
  proof (cases "json_match response")
    case None then show ?thesis .
  next
    case (Some m)
    from json_match_Some[OF Some] obtain pre mid post where
      "response = pre @ m @ post" "m = 123 # mid @ [125]" by blast
    then have "response = pre @ 123 # mid @ 125 # post" by simp
    with a show ?thesis by blast
  qed
qed

text \<open>
  C6. When the response text holds no opening brace followed by a closing brace, or the
  text from its first opening brace to its last closing brace does not parse, then
  \<open>parseVerdictResponse\<close> returns its fallback object (decision
  \<open>insufficient_evidence\<close>, empty \<open>keyFindings\<close> and \<open>legalPrinciples\<close>, \<open>damages\<close> null,
  \<open>confidence\<close> 0.5, \<open>openToReconsideration\<close> true) and \<open>parseArgumentResponse\<close> its own
  (\<open>verdictChange\<close> \<open>none\<close>, \<open>confidence\<close> 0.5). When that text parses, both return the
  parsed object. \<open>json_match\<close> is that text: it starts at the first opening brace, ends
  at the last closing brace, and is absent exactly when no opening brace is followed by a
  closing one.
\<close>

theorem parse_response_fallback:
  "(json_match response = None \<or> (\<exists>m. json_match response = Some m \<and> JSON_parse m = None) \<longrightarrow>
      parseVerdictResponse JSON_parse response = verdict_fallback response \<and>
      parseArgumentResponse JSON_parse response = argument_fallback response) \<and>
   map_of (verdict_fallback response) ''decision'' = Some (JStr (lit ''insufficient_evidence'')) \<and>
   map_of (verdict_fallback response) ''keyFindings'' = Some (JArr []) \<and>
   map_of (verdict_fallback response) ''legalPrinciples'' = Some (JArr []) \<and>
   map_of (verdict_fallback response) ''damages'' = Some JNull \<and>
   map_of (verdict_fallback response) ''confidence'' = Some (JNum (1 / 2)) \<and>
   map_of (verdict_fallback response) ''openToReconsideration'' = Some (JBool True) \<and>
   map_of (argument_fallback response) ''verdictChange'' = Some (JStr (lit ''none'')) \<and>
   map_of (argument_fallback response) ''confidence'' = Some (JNum (1 / 2)) \<and>
   (\<forall>m parsed. json_match response = Some m \<and> JSON_parse m = Some parsed \<longrightarrow>
      parseVerdictResponse JSON_parse response = parsed \<and>
      parseArgumentResponse JSON_parse response = parsed) \<and>
   (\<forall>m. json_match response = Some m \<longrightarrow>
      (\<exists>pre mid post. response = pre @ m @ post \<and> m = 123 # mid @ [125] \<and>
         123 \<notin> set pre \<and> 125 \<notin> set post)) \<and>
   (json_match response = None \<longleftrightarrow>
      \<not> (\<exists>pre mid post. response = pre @ 123 # mid @ 125 # post))"
proof (intro conjI allI impI)
  assume "json_match response = None \<or> (\<exists>m. json_match response = Some m \<and> JSON_parse m = None)"
  then show "parseVerdictResponse JSON_parse response = verdict_fallback response"
    "parseArgumentResponse JSON_parse response = argument_fallback response"
    by (auto simp: parseVerdictResponse_def parseArgumentResponse_def)
next
  fix m parsed assume "json_match response = Some m \<and> JSON_parse m = Some parsed"
  then show "parseVerdictResponse JSON_parse response = parsed"
    "parseArgumentResponse JSON_parse response = parsed"
    by (auto simp: parseVerdictResponse_def parseArgumentResponse_def)
next
  fix m assume "json_match response = Some m"
  then show "\<exists>pre mid post. response = pre @ m @ post \<and> m = 123 # mid @ [125] \<and>
         123 \<notin> set pre \<and> 125 \<notin> set post" by (rule json_match_Some)
next
  show "json_match response = None \<longleftrightarrow>
      \<not> (\<exists>pre mid post. response = pre @ 123 # mid @ 125 # post)" by (rule json_match_None)
qed (simp_all add: verdict_fallback_def argument_fallback_def)

theorem parse_response_fallback_witness:
  "json_match [111, 107] = None \<and>
   parseVerdictResponse (\<lambda>s. if s = [123, 125] then Some [] else None) [111, 107] =
     verdict_fallback [111, 107] \<and>
   parseArgumentResponse (\<lambda>s. if s = [123, 125] then Some [] else None) [111, 107] =
     argument_fallback [111, 107] \<and>
   json_match [125, 123, 120, 125, 32] = Some [123, 120, 125] \<and>
   parseVerdictResponse (\<lambda>s. if s = [123, 125] then Some [] else None)
     [125, 123, 120, 125, 32] = verdict_fallback [125, 123, 120, 125, 32] \<and>
   json_match [120, 123, 125, 121] = Some [123, 125] \<and>
   parseVerdictResponse (\<lambda>s. if s = [123, 125] then Some [] else None) [120, 123, 125, 121] =
     [] \<and>
   parseArgumentResponse (\<lambda>s. if s = [123, 125] then Some [] else None) [120, 123, 125, 121] =
     []"
proof -
  define P :: "jsstring \<Rightarrow> obj option" where
    "P = (\<lambda>s. if s = [123, 125] then Some [] else None)"
  have m1: "json_match [111, 107] = None" by (simp add: json_match_def)
  have m2: "json_match [125, 123, 120, 125, 32] = Some [123, 120, 125]"
    by (simp add: json_match_def upto_last_def)
  have m3: "json_match [120, 123, 125, 121] = Some [123, 125]"
    by (simp add: json_match_def upto_last_def)
  have p2: "P [123, 120, 125] = None" by (simp add: P_def)
  have p3: "P [123, 125] = Some []" by (simp add: P_def)
  note t1 = parse_response_fallback[of "[111, 107]" P]
  note t2 = parse_response_fallback[of "[125, 123, 120, 125, 32]" P]
  note t3 = parse_response_fallback[of "[120, 123, 125, 121]" P]
  from t1 m1 have a1: "parseVerdictResponse P [111, 107] = verdict_fallback [111, 107] \<and>
      parseArgumentResponse P [111, 107] = argument_fallback [111, 107]" by blast
  from t2 m2 p2 have a2: "parseVerdictResponse P [125, 123, 120, 125, 32] =
      verdict_fallback [125, 123, 120, 125, 32]" by blast
  from t3 m3 p3 have a3: "parseVerdictResponse P [120, 123, 125, 121] = [] \<and>
      parseArgumentResponse P [120, 123, 125, 121] = []" by blast
  show ?thesis using m1 a1 m2 a2 m3 a3 unfolding P_def by (intro conjI) blast+
qed

end
